theory Spec2Isabelle
  imports Main "HOL-Library.Word" "HOL-Library.AList"
begin

section \<open>JavaScript strings and values\<close>

text \<open>
  A JavaScript string is a sequence of 16-bit code units. Literals of the script are written
  with \<open>js\<close>, which maps each character of an Isabelle string to its code unit.
\<close>

type_synonym codeunit = "16 word"
type_synonym jsstring = "codeunit list"

definition js :: "string \<Rightarrow> jsstring" where
  "js s = map of_char s"

text \<open>
  \<open>String.prototype.trim\<close> strips the code units that ECMAScript calls WhiteSpace or
  LineTerminator from both ends; whitespace inside the string stays.
\<close>

definition isWhiteSpace :: "codeunit \<Rightarrow> bool" where
  "isWhiteSpace c \<longleftrightarrow>
     c = 0x09 \<or> c = 0x0A \<or> c = 0x0B \<or> c = 0x0C \<or> c = 0x0D \<or> c = 0x20 \<or> c = 0xA0 \<or>
     c = 0x1680 \<or> (0x2000 \<le> c \<and> c \<le> 0x200A) \<or> c = 0x2028 \<or> c = 0x2029 \<or>
     c = 0x202F \<or> c = 0x205F \<or> c = 0x3000 \<or> c = 0xFEFF"

definition trim :: "jsstring \<Rightarrow> jsstring" where
  "trim s = rev (dropWhile isWhiteSpace (rev (dropWhile isWhiteSpace s)))"

text \<open>
  The values the script handles: what \<open>JSON.parse\<close> can return, and \<open>undefined\<close>, which a
  destructuring of an empty array yields. An object is the list of its own properties in
  creation order. A number is kept as its literal: the conversion to and from IEEE doubles
  is outside this development, and no field of a task is a number.
\<close>

datatype jsval =
    JUndefined
  | JNull
  | JBool bool
  | JNum jsstring
  | JStr jsstring
  | JArr "jsval list"
  | JObj "(jsstring \<times> jsval) list"

datatype error = TypeError | SyntaxError | QuotaExceededError

datatype outcome = Returned | Threw error

section \<open>JSON.stringify\<close>

definition hexDigit :: "nat \<Rightarrow> codeunit" where
  "hexDigit d = (if d < 10 then of_nat (48 + d) else of_nat (87 + d))"

definition unicodeEscape :: "codeunit \<Rightarrow> jsstring" where
  "unicodeEscape c =
     (let n = unat c in
      [0x5C, 0x75, hexDigit (n div 4096), hexDigit (n div 256 mod 16),
       hexDigit (n div 16 mod 16), hexDigit (n mod 16)])"

definition isLeadingSurrogate :: "codeunit \<Rightarrow> bool" where
  "isLeadingSurrogate c \<longleftrightarrow> 0xD800 \<le> c \<and> c \<le> 0xDBFF"

definition isTrailingSurrogate :: "codeunit \<Rightarrow> bool" where
  "isTrailingSurrogate c \<longleftrightarrow> 0xDC00 \<le> c \<and> c \<le> 0xDFFF"

text \<open>The escape of one code unit that is not a surrogate (QuoteJSONString, steps 2.a to 2.c).\<close>

definition quoteUnit :: "codeunit \<Rightarrow> jsstring" where
  "quoteUnit c =
     (if c = 0x08 then [0x5C, 0x62]
      else if c = 0x09 then [0x5C, 0x74]
      else if c = 0x0A then [0x5C, 0x6E]
      else if c = 0x0C then [0x5C, 0x66]
      else if c = 0x0D then [0x5C, 0x72]
      else if c = 0x22 then [0x5C, 0x22]
      else if c = 0x5C then [0x5C, 0x5C]
      else if c < 0x20 then unicodeEscape c
      else [c])"

text \<open>
  A leading surrogate followed by a trailing one is a code point and is copied; any other
  surrogate is written as a \<open>\u\<close> escape (well-formed \<open>JSON.stringify\<close>).
\<close>

fun quoteUnits :: "jsstring \<Rightarrow> jsstring" where
  "quoteUnits [] = []"
| "quoteUnits [c] =
     (if isLeadingSurrogate c \<or> isTrailingSurrogate c then unicodeEscape c else quoteUnit c)"
| "quoteUnits (c # d # cs) =
     (if isLeadingSurrogate c then
        (if isTrailingSurrogate d then c # d # quoteUnits cs
         else unicodeEscape c @ quoteUnits (d # cs))
      else if isTrailingSurrogate c then unicodeEscape c @ quoteUnits (d # cs)
      else quoteUnit c @ quoteUnits (d # cs))"

definition quoteJSONString :: "jsstring \<Rightarrow> jsstring" where
  "quoteJSONString s = 0x22 # quoteUnits s @ [0x22]"

fun join :: "jsstring \<Rightarrow> jsstring list \<Rightarrow> jsstring" where
  "join sep [] = []"
| "join sep [x] = x"
| "join sep (x # y # ys) = x @ sep @ join sep (y # ys)"

text \<open>
  SerializeJSONProperty: \<open>None\<close> stands for the result \<open>undefined\<close>. In an array an
  \<open>undefined\<close> element is written \<open>null\<close>; in an object such a property is left out.
\<close>

fun stringify :: "jsval \<Rightarrow> jsstring option" where
  "stringify JUndefined = None"
| "stringify JNull = Some (js ''null'')"
| "stringify (JBool b) = Some (if b then js ''true'' else js ''false'')"
| "stringify (JNum n) = Some n"
| "stringify (JStr s) = Some (quoteJSONString s)"
| "stringify (JArr xs) =
     Some (js ''['' @
           join (js '','')
             (map (\<lambda>x. case stringify x of None \<Rightarrow> js ''null'' | Some s \<Rightarrow> s) xs) @
           js '']'')"
| "stringify (JObj ps) =
     Some (js ''{'' @
           join (js '','')
             (concat (map (\<lambda>p. case stringify (snd p) of
                                   None \<Rightarrow> []
                                 | Some s \<Rightarrow> [quoteJSONString (fst p) @ js '':'' @ s]) ps)) @
           js ''}'')"

section \<open>JSON.parse\<close>

text \<open>
  The JSON grammar read by recursive descent over the code units; \<open>None\<close> is a SyntaxError.
  Each parser returns the value and the input that is left.
\<close>

definition isJSONWhiteSpace :: "codeunit \<Rightarrow> bool" where
  "isJSONWhiteSpace c \<longleftrightarrow> c = 0x09 \<or> c = 0x0A \<or> c = 0x0D \<or> c = 0x20"

definition skipWS :: "jsstring \<Rightarrow> jsstring" where
  "skipWS cs = dropWhile isJSONWhiteSpace cs"

definition unhex :: "codeunit \<Rightarrow> nat option" where
  "unhex c =
     (if 0x30 \<le> c \<and> c \<le> 0x39 then Some (unat c - 48)
      else if 0x61 \<le> c \<and> c \<le> 0x66 then Some (unat c - 87)
      else if 0x41 \<le> c \<and> c \<le> 0x46 then Some (unat c - 55)
      else None)"

definition unhex4 :: "codeunit \<Rightarrow> codeunit \<Rightarrow> codeunit \<Rightarrow> codeunit \<Rightarrow> codeunit option" where
  "unhex4 a b c d =
     (case (unhex a, unhex b, unhex c, unhex d) of
        (Some h3, Some h2, Some h1, Some h0) \<Rightarrow> Some (of_nat (4096 * h3 + 256 * h2 + 16 * h1 + h0))
      | _ \<Rightarrow> None)"

definition unescape :: "codeunit \<Rightarrow> codeunit option" where
  "unescape e =
     (if e = 0x22 \<or> e = 0x5C \<or> e = 0x2F then Some e
      else if e = 0x62 then Some 0x08
      else if e = 0x66 then Some 0x0C
      else if e = 0x6E then Some 0x0A
      else if e = 0x72 then Some 0x0D
      else if e = 0x74 then Some 0x09
      else None)"

definition consTo :: "'a \<Rightarrow> ('a list \<times> 'b) option \<Rightarrow> ('a list \<times> 'b) option" where
  "consTo x r = map_option (\<lambda>p. (x # fst p, snd p)) r"

fun parseChars :: "jsstring \<Rightarrow> (jsstring \<times> jsstring) option" where
  "parseChars [] = None"
| "parseChars (c # cs) =
     (if c = 0x22 then Some ([], cs)
      else if c = 0x5C then
        (case cs of
           [] \<Rightarrow> None
         | e # r \<Rightarrow>
             if e = 0x75 then
               (case r of
                  h3 # h2 # h1 # h0 # r' \<Rightarrow>
                    (case unhex4 h3 h2 h1 h0 of
                       None \<Rightarrow> None
                     | Some u \<Rightarrow> consTo u (parseChars r'))
                | _ \<Rightarrow> None)
             else
               (case unescape e of
                  None \<Rightarrow> None
                | Some u \<Rightarrow> consTo u (parseChars r)))
      else if c < 0x20 then None
      else consTo c (parseChars cs))"

definition isDigit :: "codeunit \<Rightarrow> bool" where
  "isDigit c \<longleftrightarrow> 0x30 \<le> c \<and> c \<le> 0x39"

definition parseDigits :: "jsstring \<Rightarrow> (jsstring \<times> jsstring) option" where
  "parseDigits cs =
     (let ds = takeWhile isDigit cs
      in if ds = [] then None else Some (ds, dropWhile isDigit cs))"

definition parseInt :: "jsstring \<Rightarrow> (jsstring \<times> jsstring) option" where
  "parseInt cs =
     (case cs of
        [] \<Rightarrow> None
      | c # r \<Rightarrow>
          if c = 0x30 then Some ([c], r)
          else if 0x31 \<le> c \<and> c \<le> 0x39 then Some (c # takeWhile isDigit r, dropWhile isDigit r)
          else None)"

definition parseFrac :: "jsstring \<Rightarrow> (jsstring \<times> jsstring) option" where
  "parseFrac cs =
     (case cs of
        [] \<Rightarrow> Some ([], cs)
      | c # r \<Rightarrow> if c = 0x2E then consTo c (parseDigits r) else Some ([], cs))"

definition parseSign :: "jsstring \<Rightarrow> jsstring \<times> jsstring" where
  "parseSign cs =
     (case cs of
        [] \<Rightarrow> ([], cs)
      | c # r \<Rightarrow> if c = 0x2B \<or> c = 0x2D then ([c], r) else ([], cs))"

definition parseExp :: "jsstring \<Rightarrow> (jsstring \<times> jsstring) option" where
  "parseExp cs =
     (case cs of
        [] \<Rightarrow> Some ([], cs)
      | c # r \<Rightarrow>
          if c = 0x65 \<or> c = 0x45 then
            (case parseDigits (snd (parseSign r)) of
               None \<Rightarrow> None
             | Some (ds, r') \<Rightarrow> Some (c # fst (parseSign r) @ ds, r'))
          else Some ([], cs))"

definition parseNumber :: "jsstring \<Rightarrow> (jsstring \<times> jsstring) option" where
  "parseNumber cs =
     (let (minus, r0) = (case cs of [] \<Rightarrow> ([], cs) | c # r \<Rightarrow> if c = 0x2D then ([c], r) else ([], cs))
      in case parseInt r0 of
           None \<Rightarrow> None
         | Some (ip, r1) \<Rightarrow>
             (case parseFrac r1 of
                None \<Rightarrow> None
              | Some (fp, r2) \<Rightarrow>
                  (case parseExp r2 of
                     None \<Rightarrow> None
                   | Some (ep, r3) \<Rightarrow> Some (minus @ ip @ fp @ ep, r3))))"

definition mkObject :: "(jsstring \<times> jsval) list \<Rightarrow> (jsstring \<times> jsval) list" where
  "mkObject ms = foldl (\<lambda>ps m. AList.update (fst m) (snd m) ps) [] ms"

function parseValue :: "jsstring \<Rightarrow> (jsval \<times> jsstring) option"
  and parseElements :: "jsstring \<Rightarrow> (jsval list \<times> jsstring) option"
  and parseMembers :: "jsstring \<Rightarrow> ((jsstring \<times> jsval) list \<times> jsstring) option"
where
  "parseValue cs =
     (case skipWS cs of
        [] \<Rightarrow> None
      | c # r \<Rightarrow>
          if c = 0x22 then map_option (\<lambda>p. (JStr (fst p), snd p)) (parseChars r)
          else if c = 0x5B then
            (case skipWS r of
               [] \<Rightarrow> None
             | c' # r' \<Rightarrow>
                 if c' = 0x5D then Some (JArr [], r')
                 else map_option (\<lambda>p. (JArr (fst p), snd p)) (parseElements r))
          else if c = 0x7B then
            (case skipWS r of
               [] \<Rightarrow> None
             | c' # r' \<Rightarrow>
                 if c' = 0x7D then Some (JObj [], r')
                 else map_option (\<lambda>p. (JObj (mkObject (fst p)), snd p)) (parseMembers r))
          else if take 4 (c # r) = js ''true'' then Some (JBool True, drop 3 r)
          else if take 5 (c # r) = js ''false'' then Some (JBool False, drop 4 r)
          else if take 4 (c # r) = js ''null'' then Some (JNull, drop 3 r)
          else map_option (\<lambda>p. (JNum (fst p), snd p)) (parseNumber (c # r)))"
| "parseElements cs =
     (case parseValue cs of
        None \<Rightarrow> None
      | Some (v, r) \<Rightarrow>
          if length r < length cs then
            (case skipWS r of
               [] \<Rightarrow> None
             | c # r' \<Rightarrow>
                 if c = 0x2C then consTo v (parseElements r')
                 else if c = 0x5D then Some ([v], r')
                 else None)
          else None)"
| "parseMembers cs =
     (case skipWS cs of
        [] \<Rightarrow> None
      | q # r0 \<Rightarrow>
          if q = 0x22 then
            (case parseChars r0 of
               None \<Rightarrow> None
             | Some (k, r1) \<Rightarrow>
                 (case skipWS r1 of
                    [] \<Rightarrow> None
                  | colon # r2 \<Rightarrow>
                      if colon = 0x3A \<and> length r2 < length cs then
                        (case parseValue r2 of
                           None \<Rightarrow> None
                         | Some (v, r3) \<Rightarrow>
                             if length r3 < length cs then
                               (case skipWS r3 of
                                  [] \<Rightarrow> None
                                | c # r4 \<Rightarrow>
                                    if c = 0x2C then consTo (k, v) (parseMembers r4)
                                    else if c = 0x7D then Some ([(k, v)], r4)
                                    else None)
                             else None)
                      else None))
          else None)"
  by pat_completeness auto
termination
proof -
  have ws: "length r < length cs" if "skipWS cs = c # r" for cs r and c :: codeunit
  proof -
    have "length (skipWS cs) \<le> length cs"
      unfolding skipWS_def by (rule length_dropWhile_le)
    with that show ?thesis by simp
  qed
  show ?thesis
    by (relation "measure (\<lambda>x. case x of Inl cs \<Rightarrow> 2 * length cs
                                   | Inr (Inl cs) \<Rightarrow> 2 * length cs + 1
                                   | Inr (Inr cs) \<Rightarrow> 2 * length cs + 1)")
       (auto dest: ws)
qed

definition JSON_parse :: "jsstring \<Rightarrow> error + jsval" where
  "JSON_parse s =
     (case parseValue s of
        None \<Rightarrow> Inl SyntaxError
      | Some (v, r) \<Rightarrow> if skipWS r = [] then Inr v else Inl SyntaxError)"

text \<open>The equations of the three parsers are unfolded by hand, one call at a time.\<close>

declare parseValue.simps [simp del] parseElements.simps [simp del] parseMembers.simps [simp del]

section \<open>localStorage\<close>

text \<open>
  The storage area of the origin: its items, and the space the user agent grants. \<open>setItem\<close>
  throws QuotaExceededError when the new value cannot be stored; the space an item takes is
  counted here as the code units of its key and value.
\<close>

record storage =
  items :: "(jsstring \<times> jsstring) list"
  quota :: nat

definition used :: "(jsstring \<times> jsstring) list \<Rightarrow> nat" where
  "used its = sum_list (map (\<lambda>p. length (fst p) + length (snd p)) its)"

definition getItem :: "storage \<Rightarrow> jsstring \<Rightarrow> jsstring option" where
  "getItem s k = map_of (items s) k"

definition setItem :: "storage \<Rightarrow> jsstring \<Rightarrow> jsstring \<Rightarrow> error + storage" where
  "setItem s k v =
     (let its = AList.update k v (items s)
      in if used its \<le> quota s then Inr (s\<lparr>items := its\<rparr>) else Inl QuotaExceededError)"

section \<open>The script's state\<close>

text \<open>
  The variables of the script that outlive a handler: the array \<open>tasks\<close>, the index of the
  row being dragged (\<open>None\<close> for \<open>null\<close>), the value of the input field, and the storage.
\<close>

record state =
  tasks :: jsval
  draggedIndex :: "nat option"
  todoInput :: jsstring
  localStorage :: storage

text \<open>A handler returns or throws; either way it leaves a state behind.\<close>

definition andThen :: "outcome \<times> state \<Rightarrow> (state \<Rightarrow> outcome \<times> state) \<Rightarrow> outcome \<times> state" where
  "andThen r f = (case r of (Returned, st) \<Rightarrow> f st | (Threw e, st) \<Rightarrow> (Threw e, st))"

text \<open>
  \<open>Array.prototype.splice(start, deleteCount, ...items)\<close> on the elements of an array: the
  removed elements and the array afterwards. A negative start counts from the end, and both
  arguments are clamped to the array.
\<close>

definition splice :: "'a list \<Rightarrow> int \<Rightarrow> int \<Rightarrow> 'a list \<Rightarrow> 'a list \<times> 'a list" where
  "splice xs start deleteCount its =
     (let len = int (length xs);
          s = (if start < 0 then max (len + start) 0 else min start len);
          d = min (max deleteCount 0) (len - s)
      in (take (nat d) (drop (nat s) xs),
          take (nat s) xs @ its @ drop (nat (s + d)) xs))"

text \<open>
  An assignment \<open>o.k = v\<close> in a classic script: it throws on \<open>null\<close> and \<open>undefined\<close>, is
  dropped on a primitive, and on an array creates a property that is no element.
\<close>

fun setProp :: "jsval \<Rightarrow> jsstring \<Rightarrow> jsval \<Rightarrow> error + jsval" where
  "setProp (JObj ps) k v = Inr (JObj (AList.update k v ps))"
| "setProp JNull k v = Inl TypeError"
| "setProp JUndefined k v = Inl TypeError"
| "setProp x k v = Inr x"

definition tasksBlob :: "jsval \<Rightarrow> jsstring" where
  "tasksBlob v = (case stringify v of None \<Rightarrow> js ''undefined'' | Some s \<Rightarrow> s)"

definition saveTasks :: "state \<Rightarrow> outcome \<times> state" where
  "saveTasks st =
     (case setItem (localStorage st) (js ''tasks'') (tasksBlob (tasks st)) of
        Inl e \<Rightarrow> (Threw e, st)
      | Inr s \<Rightarrow> (Returned, st\<lparr>localStorage := s\<rparr>))"

text \<open>
  \<open>loadTasks\<close>: an absent item and the empty string are both falsy and give the empty
  array; whatever \<open>JSON.parse\<close> throws is caught.
\<close>

definition loadTasks :: "state \<Rightarrow> outcome \<times> state" where
  "loadTasks st =
     (case (case getItem (localStorage st) (js ''tasks'') of
              None \<Rightarrow> Inr (JArr [])
            | Some stored \<Rightarrow> if stored \<noteq> [] then JSON_parse stored else Inr (JArr [])) of
        Inr v \<Rightarrow> (Returned, st\<lparr>tasks := v\<rparr>)
      | Inl e \<Rightarrow> (Returned, st\<lparr>tasks := JArr []\<rparr>))"

text \<open>
  Of \<open>renderTasks\<close> only whether it throws is kept: \<open>forEach\<close> exists on arrays alone, and
  reading \<open>task.completed\<close> throws on \<open>null\<close> and \<open>undefined\<close>. The rows it draws are
  added in the section on the view.
\<close>

definition renderTasks :: "state \<Rightarrow> outcome \<times> state" where
  "renderTasks st =
     (case tasks st of
        JArr xs \<Rightarrow> if list_ex (\<lambda>x. x = JNull \<or> x = JUndefined) xs
                   then (Threw TypeError, st) else (Returned, st)
      | _ \<Rightarrow> (Threw TypeError, st))"

text \<open>
  The handlers that \<open>renderTasks\<close> attaches to a row close over the row's \<open>index\<close> and its
  \<open>task\<close>, a reference to the object that was the element at that index when the row was
  drawn. The list holds an object at most once: \<open>JSON.parse\<close> and \<open>addTask\<close> make new
  objects, and \<open>splice\<close> only moves them. So the reference is given by the place where the
  object now stands in the list, \<open>Some p\<close>, or by \<open>None\<close> when the object has left the list.
  The two differ from the row's index as soon as a handler has thrown before it could draw
  the view again.
\<close>

type_synonym place = "nat option"

text \<open>
  \<open>task.k = v\<close> for the task a row holds. An object that has left the list is changed
  where the list does not see it.
\<close>

definition assignTask :: "jsval \<Rightarrow> place \<Rightarrow> jsstring \<Rightarrow> jsval \<Rightarrow> error + jsval" where
  "assignTask ts task k v =
     (case task of
        None \<Rightarrow> Inr ts
      | Some p \<Rightarrow>
          (case ts of
             JArr xs \<Rightarrow>
               if p < length xs
               then (case setProp (xs ! p) k v of
                       Inl e \<Rightarrow> Inl e
                     | Inr x \<Rightarrow> Inr (JArr (xs[p := x])))
               else Inr ts
           | _ \<Rightarrow> Inr ts))"

definition checkbox_change :: "place \<Rightarrow> bool \<Rightarrow> state \<Rightarrow> outcome \<times> state" where
  "checkbox_change task checked st =
     (case assignTask (tasks st) task (js ''completed'') (JBool checked) of
        Inl e \<Rightarrow> (Threw e, st)
      | Inr ts \<Rightarrow> andThen (saveTasks (st\<lparr>tasks := ts\<rparr>)) renderTasks)"

text \<open>
  The edit button: \<open>isEditing\<close> and \<open>textContent\<close> are what the handler reads from the
  row's span. A first click only makes the span editable; a second one commits.
\<close>

definition editBtn_click :: "place \<Rightarrow> bool \<Rightarrow> jsstring \<Rightarrow> state \<Rightarrow> outcome \<times> state" where
  "editBtn_click task isEditing textContent st =
     (if \<not> isEditing then (Returned, st)
      else
        (let newText = trim textContent in
         if newText \<noteq> [] then
           (case assignTask (tasks st) task (js ''text'') (JStr newText) of
              Inl e \<Rightarrow> (Threw e, st)
            | Inr ts \<Rightarrow> andThen (saveTasks (st\<lparr>tasks := ts\<rparr>)) renderTasks)
         else renderTasks st))"

definition removeBtn_click :: "nat \<Rightarrow> state \<Rightarrow> outcome \<times> state" where
  "removeBtn_click index st =
     (case tasks st of
        JArr xs \<Rightarrow>
          andThen (saveTasks (st\<lparr>tasks := JArr (snd (splice xs (int index) 1 []))\<rparr>)) renderTasks
      | _ \<Rightarrow> (Threw TypeError, st))"

definition handleDragStart :: "nat \<Rightarrow> state \<Rightarrow> outcome \<times> state" where
  "handleDragStart index st = (Returned, st\<lparr>draggedIndex := Some index\<rparr>)"

definition handleDragOver :: "state \<Rightarrow> outcome \<times> state" where
  "handleDragOver st = (Returned, st)"

definition handleDrop :: "nat \<Rightarrow> state \<Rightarrow> outcome \<times> state" where
  "handleDrop targetIndex st =
     (case draggedIndex st of
        None \<Rightarrow> (Returned, st)
      | Some d \<Rightarrow>
          if d = targetIndex then (Returned, st)
          else
            (case tasks st of
               JArr xs \<Rightarrow>
                 (let (removed, ys) = splice xs (int d) 1 [];
                      movedTask = (case removed of [] \<Rightarrow> JUndefined | x # _ \<Rightarrow> x);
                      zs = snd (splice ys (int targetIndex) 0 [movedTask])
                  in andThen (saveTasks (st\<lparr>tasks := JArr zs\<rparr>)) renderTasks)
             | _ \<Rightarrow> (Threw TypeError, st)))"

definition handleDragEnd :: "state \<Rightarrow> outcome \<times> state" where
  "handleDragEnd st = (Returned, st\<lparr>draggedIndex := None\<rparr>)"

text \<open>\<open>now\<close> is what \<open>new Date().toISOString()\<close> returns when the handler runs.\<close>

definition newTask :: "jsstring \<Rightarrow> jsstring \<Rightarrow> jsval" where
  "newTask text now =
     JObj [(js ''text'', JStr text), (js ''completed'', JBool False), (js ''createdAt'', JStr now)]"

definition addTask :: "jsstring \<Rightarrow> state \<Rightarrow> outcome \<times> state" where
  "addTask now st =
     (let text = trim (todoInput st) in
      if text = [] then (Returned, st)
      else
        (case tasks st of
           JArr xs \<Rightarrow>
             andThen
               (andThen (saveTasks (st\<lparr>tasks := JArr (xs @ [newTask text now])\<rparr>)) renderTasks)
               (\<lambda>st'. (Returned, st'\<lparr>todoInput := []\<rparr>))
         | _ \<Rightarrow> (Threw TypeError, st)))"

definition deleteAllTasks :: "state \<Rightarrow> outcome \<times> state" where
  "deleteAllTasks st = andThen (saveTasks (st\<lparr>tasks := JArr []\<rparr>)) renderTasks"

section \<open>The view\<close>

text \<open>
  The page: the state of the script and the rows that \<open>renderTasks\<close> has drawn. Of a row
  only the task it holds is kept, as the place where that task now stands; the index the
  row holds is its number in the view, since \<open>forEach\<close> draws the rows in order.
\<close>

record page =
  store :: state
  rows :: "place list"

text \<open>
  What \<open>renderTasks\<close> draws: it empties the view and adds a row for each element in turn,
  up to the first \<open>null\<close> or \<open>undefined\<close>, where reading \<open>task.completed\<close> throws. On a
  value that is no array \<open>forEach\<close> is missing, and the view stays empty.
\<close>

definition rendered :: "jsval \<Rightarrow> place list" where
  "rendered ts =
     (case ts of
        JArr xs \<Rightarrow> map Some [0..<length (takeWhile (\<lambda>x. x \<noteq> JNull \<and> x \<noteq> JUndefined) xs)]
      | _ \<Rightarrow> [])"

definition renderPage :: "page \<Rightarrow> outcome \<times> page" where
  "renderPage pg = (fst (renderTasks (store pg)), pg\<lparr>rows := rendered (tasks (store pg))\<rparr>)"

text \<open>
  \<open>saveTasks(); renderTasks();\<close> after a change of the list. When \<open>saveTasks\<close> throws, the
  view is not drawn again: the old rows stay, and \<open>moved\<close> tells where the change of the
  list has taken the task of each.
\<close>

definition saveAndRender :: "(nat \<Rightarrow> place) \<Rightarrow> state \<Rightarrow> page \<Rightarrow> outcome \<times> page" where
  "saveAndRender moved st pg =
     (case saveTasks st of
        (Threw e, st') \<Rightarrow> (Threw e, \<lparr>store = st', rows = map (\<lambda>r. Option.bind r moved) (rows pg)\<rparr>)
      | (Returned, st') \<Rightarrow> renderPage \<lparr>store = st', rows = rows pg\<rparr>)"

text \<open>
  Where an element goes: when the element at \<open>k\<close> is taken out, when an element is put in at
  \<open>j\<close>, and when \<open>handleDrop\<close> moves the element at \<open>d\<close> of a list of \<open>n\<close> elements to \<open>j\<close>.
\<close>

definition afterRemove :: "nat \<Rightarrow> nat \<Rightarrow> place" where
  "afterRemove k q = (if q = k then None else if k < q then Some (q - 1) else Some q)"

definition afterInsert :: "nat \<Rightarrow> nat \<Rightarrow> place" where
  "afterInsert j q = (if j \<le> q then Some (Suc q) else Some q)"

definition afterMove :: "nat \<Rightarrow> nat \<Rightarrow> nat \<Rightarrow> nat \<Rightarrow> place" where
  "afterMove n d j q =
     (if d < n then
        (if q = d then Some (min j (n - 1)) else Option.bind (afterRemove d q) (afterInsert j))
      else afterInsert j q)"

text \<open>
  The handlers of row \<open>k\<close> of the view. The checkbox and the edit button use the task the
  row holds; the remove button and the drag handlers use the number of the row.
\<close>

definition rowCheckbox :: "nat \<Rightarrow> bool \<Rightarrow> page \<Rightarrow> outcome \<times> page" where
  "rowCheckbox k checked pg =
     (if k < length (rows pg) then
        (case assignTask (tasks (store pg)) (rows pg ! k) (js ''completed'') (JBool checked) of
           Inl e \<Rightarrow> (Threw e, pg)
         | Inr ts \<Rightarrow> saveAndRender Some ((store pg)\<lparr>tasks := ts\<rparr>) pg)
      else (Returned, pg))"

definition rowEdit :: "nat \<Rightarrow> bool \<Rightarrow> jsstring \<Rightarrow> page \<Rightarrow> outcome \<times> page" where
  "rowEdit k isEditing textContent pg =
     (if k < length (rows pg) \<and> isEditing then
        (let newText = trim textContent in
         if newText \<noteq> [] then
           (case assignTask (tasks (store pg)) (rows pg ! k) (js ''text'') (JStr newText) of
              Inl e \<Rightarrow> (Threw e, pg)
            | Inr ts \<Rightarrow> saveAndRender Some ((store pg)\<lparr>tasks := ts\<rparr>) pg)
         else renderPage pg)
      else (Returned, pg))"

definition rowRemove :: "nat \<Rightarrow> page \<Rightarrow> outcome \<times> page" where
  "rowRemove k pg =
     (if k < length (rows pg) then
        (case tasks (store pg) of
           JArr xs \<Rightarrow>
             saveAndRender (afterRemove k)
               ((store pg)\<lparr>tasks := JArr (snd (splice xs (int k) 1 []))\<rparr>) pg
         | _ \<Rightarrow> (Threw TypeError, pg))
      else (Returned, pg))"

definition rowDragStart :: "nat \<Rightarrow> page \<Rightarrow> outcome \<times> page" where
  "rowDragStart k pg =
     (if k < length (rows pg) then (Returned, pg\<lparr>store := (store pg)\<lparr>draggedIndex := Some k\<rparr>\<rparr>)
      else (Returned, pg))"

definition rowDrop :: "nat \<Rightarrow> page \<Rightarrow> outcome \<times> page" where
  "rowDrop k pg =
     (if k < length (rows pg) then
        (case draggedIndex (store pg) of
           None \<Rightarrow> (Returned, pg)
         | Some d \<Rightarrow>
             if d = k then (Returned, pg)
             else
               (case tasks (store pg) of
                  JArr xs \<Rightarrow>
                    (let (removed, ys) = splice xs (int d) 1 [];
                         movedTask = (case removed of [] \<Rightarrow> JUndefined | x # _ \<Rightarrow> x);
                         zs = snd (splice ys (int k) 0 [movedTask])
                     in saveAndRender (afterMove (length xs) d k) ((store pg)\<lparr>tasks := JArr zs\<rparr>) pg)
                | _ \<Rightarrow> (Threw TypeError, pg)))
      else (Returned, pg))"

text \<open>The handlers that belong to no row.\<close>

definition pageDragEnd :: "page \<Rightarrow> outcome \<times> page" where
  "pageDragEnd pg = (Returned, pg\<lparr>store := (store pg)\<lparr>draggedIndex := None\<rparr>\<rparr>)"

definition pageAdd :: "jsstring \<Rightarrow> page \<Rightarrow> outcome \<times> page" where
  "pageAdd now pg =
     (let text = trim (todoInput (store pg)) in
      if text = [] then (Returned, pg)
      else
        (case tasks (store pg) of
           JArr xs \<Rightarrow>
             (case saveAndRender Some ((store pg)\<lparr>tasks := JArr (xs @ [newTask text now])\<rparr>) pg of
                (Returned, pg') \<Rightarrow> (Returned, pg'\<lparr>store := (store pg')\<lparr>todoInput := []\<rparr>\<rparr>)
              | (Threw e, pg') \<Rightarrow> (Threw e, pg'))
         | _ \<Rightarrow> (Threw TypeError, pg)))"

definition pageDeleteAll :: "page \<Rightarrow> outcome \<times> page" where
  "pageDeleteAll pg = saveAndRender (\<lambda>q. None) ((store pg)\<lparr>tasks := JArr []\<rparr>) pg"

section \<open>Notions used to state the properties\<close>

text \<open>Reading a property of a value; \<open>undefined\<close> where there is none.\<close>

definition getProp :: "jsval \<Rightarrow> jsstring \<Rightarrow> jsval" where
  "getProp v k =
     (case v of
        JObj ps \<Rightarrow> (case map_of ps k of None \<Rightarrow> JUndefined | Some x \<Rightarrow> x)
      | _ \<Rightarrow> JUndefined)"

text \<open>The elements of an array; a value that is no array has none.\<close>

definition elements :: "jsval \<Rightarrow> jsval list" where
  "elements v = (case v of JArr xs \<Rightarrow> xs | _ \<Rightarrow> [])"

text \<open>
  A task as \<open>addTask\<close> builds it and as the handlers leave it: its text, its completion
  flag and its creation time.
\<close>

definition taskObj :: "jsstring \<times> bool \<times> jsstring \<Rightarrow> jsval" where
  "taskObj t =
     JObj [(js ''text'', JStr (fst t)), (js ''completed'', JBool (fst (snd t))),
           (js ''createdAt'', JStr (snd (snd t)))]"

text \<open>The encoding of a task, as \<open>stringify\<close> writes it.\<close>

definition taskBlob :: "jsstring \<times> bool \<times> jsstring \<Rightarrow> jsstring" where
  "taskBlob t =
     0x7B # quoteJSONString (js ''text'') @ 0x3A # quoteJSONString (fst t) @
     0x2C # quoteJSONString (js ''completed'') @ 0x3A #
       (if fst (snd t) then js ''true'' else js ''false'') @
     0x2C # quoteJSONString (js ''createdAt'') @ 0x3A # quoteJSONString (snd (snd t)) @ [0x7D]"

text \<open>Putting code units in front of what a parser of characters returns.\<close>

definition prependTo :: "'a list \<Rightarrow> ('a list \<times> 'b) option \<Rightarrow> ('a list \<times> 'b) option" where
  "prependTo s r = map_option (\<lambda>p. (s @ fst p, snd p)) r"

text \<open>
  The three fields read back from a value, and the values that are tasks: those that
  \<open>taskObj\<close> builds from their own fields. A list of tasks is an array of such values.
\<close>

definition fieldsOf :: "jsval \<Rightarrow> jsstring \<times> bool \<times> jsstring" where
  "fieldsOf v =
     (case getProp v (js ''text'') of JStr s \<Rightarrow> s | _ \<Rightarrow> [],
      case getProp v (js ''completed'') of JBool b \<Rightarrow> b | _ \<Rightarrow> False,
      case getProp v (js ''createdAt'') of JStr s \<Rightarrow> s | _ \<Rightarrow> [])"

definition isTask :: "jsval \<Rightarrow> bool" where
  "isTask v \<longleftrightarrow> v = taskObj (fieldsOf v)"

definition isTaskList :: "jsval \<Rightarrow> bool" where
  "isTaskList ts = (case ts of JArr xs \<Rightarrow> list_all isTask xs | _ \<Rightarrow> False)"

text \<open>A task whose text is empty or whitespace only, and the lists that hold none.\<close>

definition blankText :: "jsval \<Rightarrow> bool" where
  "blankText v = (case getProp v (js ''text'') of JStr s \<Rightarrow> trim s = [] | _ \<Rightarrow> False)"

definition textInvariant :: "jsval \<Rightarrow> bool" where
  "textInvariant ts = (case ts of JArr xs \<Rightarrow> \<not> list_ex blankText xs | _ \<Rightarrow> True)"

text \<open>The array move of the specification: take the element out, put it in at a position.\<close>

definition removeAt :: "nat \<Rightarrow> 'a list \<Rightarrow> 'a list" where
  "removeAt i xs = take i xs @ drop (Suc i) xs"

definition insertAt :: "nat \<Rightarrow> 'a \<Rightarrow> 'a list \<Rightarrow> 'a list" where
  "insertAt j x ys = take j ys @ x # drop j ys"

text \<open>
  \<open>fits\<close>: the storage has room for the encoding of the state's list. \<open>persisted\<close>: the
  stored item is the encoding of the state's list.
\<close>

definition fits :: "state \<Rightarrow> bool" where
  "fits st \<longleftrightarrow>
     used (AList.update (js ''tasks'') (tasksBlob (tasks st)) (items (localStorage st)))
       \<le> quota (localStorage st)"

definition persisted :: "state \<Rightarrow> bool" where
  "persisted st \<longleftrightarrow> getItem (localStorage st) (js ''tasks'') = Some (tasksBlob (tasks st))"

text \<open>The view is in step with the list: its rows are those \<open>renderTasks\<close> would draw now.\<close>

definition inSync :: "page \<Rightarrow> bool" where
  "inSync pg \<longleftrightarrow> rows pg = rendered (tasks (store pg))"

text \<open>A string of plain characters between double quotes, as it stands in a JSON text.\<close>

definition quoted :: "string \<Rightarrow> jsstring" where
  "quoted s = 0x22 # js s @ [0x22]"

section \<open>Basic facts about the handlers\<close>

lemma andThen_Returned [simp]: "andThen (Returned, st) f = f st"
  by (simp add: andThen_def)

lemma andThen_Threw [simp]: "andThen (Threw e, st) f = (Threw e, st)"
  by (simp add: andThen_def)

lemma saveTasks_fits:
  "fits st \<Longrightarrow>
   saveTasks st =
     (Returned,
      st\<lparr>localStorage := (localStorage st)
            \<lparr>items := AList.update (js ''tasks'') (tasksBlob (tasks st)) (items (localStorage st))\<rparr>\<rparr>)"
  by (simp add: saveTasks_def setItem_def fits_def Let_def)

lemma saveTasks_full: "\<not> fits st \<Longrightarrow> saveTasks st = (Threw QuotaExceededError, st)"
  by (simp add: saveTasks_def setItem_def fits_def Let_def)

lemma snd_renderTasks [simp]: "snd (renderTasks st) = st"
  by (simp add: renderTasks_def split: jsval.split)

lemma tasks_saveTasks [simp]: "tasks (snd (saveTasks st)) = tasks st"
  by (cases "fits st") (simp_all add: saveTasks_fits saveTasks_full)

lemma snd_andThen_renderTasks [simp]: "snd (andThen r renderTasks) = snd r"
  by (cases r; cases "fst r") (auto simp: andThen_def split: outcome.split)

lemma tasks_save_render: "tasks (snd (andThen (saveTasks st) renderTasks)) = tasks st"
  by simp

lemma persisted_saveTasks: "fits st \<Longrightarrow> persisted (snd (saveTasks st))"
  by (simp add: saveTasks_fits persisted_def getItem_def update_conv')

lemma full_save_render:
  "\<not> fits st \<Longrightarrow> andThen (saveTasks st) renderTasks = (Threw QuotaExceededError, st)"
  by (simp add: saveTasks_full)

lemma nat_int_Suc: "nat (int i + 1) = Suc i"
  by simp

lemma snd_splice_remove: "snd (splice xs (int i) 1 []) = removeAt i xs"
  by (auto simp: splice_def removeAt_def Let_def min_def max_def nat_int_Suc)

lemma fst_splice_remove: "fst (splice xs (int i) 1 []) = take (Suc 0) (drop i xs)"
  by (auto simp: splice_def Let_def min_def max_def)

lemma snd_splice_insert: "snd (splice ys (int j) 0 [x]) = insertAt j x ys"
  by (auto simp: splice_def insertAt_def Let_def min_def max_def)

lemma take1_drop: "i < length xs \<Longrightarrow> take (Suc 0) (drop i xs) = [xs ! i]"
  by (simp add: take_Suc hd_drop_conv_nth)

lemma handleDrop_moves:
  "tasks st = JArr xs \<Longrightarrow> draggedIndex st = Some i \<Longrightarrow> i < length xs \<Longrightarrow> i \<noteq> j \<Longrightarrow>
   handleDrop j st =
     andThen (saveTasks (st\<lparr>tasks := JArr (insertAt j (xs ! i) (removeAt i xs))\<rparr>)) renderTasks"
  by (simp add: handleDrop_def split_beta Let_def snd_splice_remove fst_splice_remove
      snd_splice_insert take1_drop)

lemma length_removeAt: "i < length xs \<Longrightarrow> length (removeAt i xs) = length xs - 1"
  by (auto simp: removeAt_def)

lemma length_insertAt: "length (insertAt j x ys) = Suc (length ys)"
  by (simp add: insertAt_def)

lemma nth_insertAt: "j \<le> length ys \<Longrightarrow> insertAt j x ys ! j = x"
  by (simp add: insertAt_def nth_append)

lemma removeAt_insertAt: "j \<le> length ys \<Longrightarrow> removeAt j (insertAt j x ys) = ys"
  by (simp add: insertAt_def removeAt_def)

section \<open>Facts about adding\<close>

lemma newTask_taskObj: "newTask t now = taskObj (t, False, now)"
  by (simp add: newTask_def taskObj_def)

lemma addTask_blank: "trim (todoInput st) = [] \<Longrightarrow> addTask now st = (Returned, st)"
  by (simp add: addTask_def)

lemma addTask_full:
  "trim (todoInput st) \<noteq> [] \<Longrightarrow> tasks st = JArr xs \<Longrightarrow>
   \<not> fits (st\<lparr>tasks := JArr (xs @ [taskObj (trim (todoInput st), False, now)])\<rparr>) \<Longrightarrow>
   addTask now st =
     (Threw QuotaExceededError, st\<lparr>tasks := JArr (xs @ [taskObj (trim (todoInput st), False, now)])\<rparr>)"
  by (simp add: addTask_def Let_def newTask_taskObj saveTasks_full)

lemma snd_andThen_clear:
  "tasks (snd (andThen r (\<lambda>st'. (Returned, st'\<lparr>todoInput := []\<rparr>)))) = tasks (snd r)"
  "localStorage (snd (andThen r (\<lambda>st'. (Returned, st'\<lparr>todoInput := []\<rparr>)))) = localStorage (snd r)"
  by (cases r; cases "fst r"; simp add: andThen_def)+

section \<open>Facts about removing\<close>

lemma removeAt_out_of_range: "length xs \<le> i \<Longrightarrow> removeAt i xs = xs"
  by (simp add: removeAt_def)

lemma nth_removeAt_before: "k < i \<Longrightarrow> i < length xs \<Longrightarrow> removeAt i xs ! k = xs ! k"
  by (simp add: removeAt_def nth_append)

lemma nth_removeAt_after:
  "i \<le> k \<Longrightarrow> Suc k < length xs \<Longrightarrow> removeAt i xs ! k = xs ! Suc k"
  by (simp add: removeAt_def nth_append min_def)

lemma removeBtn_click_eq:
  "tasks st = JArr xs \<Longrightarrow>
   removeBtn_click i st = andThen (saveTasks (st\<lparr>tasks := JArr (removeAt i xs)\<rparr>)) renderTasks"
  by (simp add: removeBtn_click_def snd_splice_remove)

section \<open>Facts about editing\<close>

lemma assignTask_object:
  "i < length xs \<Longrightarrow> xs ! i = JObj ps \<Longrightarrow>
   assignTask (JArr xs) (Some i) k v = Inr (JArr (xs[i := JObj (AList.update k v ps)]))"
  by (simp add: assignTask_def)

lemma getProp_update:
  "getProp (JObj (AList.update k v ps)) k' = (if k' = k then v else getProp (JObj ps) k')"
  by (simp add: getProp_def update_conv')

lemma keys_distinct:
  "js ''text'' \<noteq> js ''completed''" "js ''text'' \<noteq> js ''createdAt''"
  "js ''completed'' \<noteq> js ''createdAt''" "js ''completed'' \<noteq> js ''text''"
  "js ''createdAt'' \<noteq> js ''text''" "js ''createdAt'' \<noteq> js ''completed''"
  by (simp_all add: js_def)

lemma editBtn_click_blank:
  "trim newText = [] \<Longrightarrow> editBtn_click i True newText st = renderTasks st"
  by (simp add: editBtn_click_def)

lemma editBtn_click_commit:
  "trim newText \<noteq> [] \<Longrightarrow> tasks st = JArr xs \<Longrightarrow> i < length xs \<Longrightarrow> xs ! i = JObj ps \<Longrightarrow>
   editBtn_click (Some i) True newText st =
     andThen (saveTasks (st\<lparr>tasks := JArr (xs[i := JObj (AList.update (js ''text'') (JStr (trim newText)) ps)])\<rparr>))
       renderTasks"
  by (simp add: editBtn_click_def assignTask_object Let_def)

section \<open>Facts about completing\<close>

lemma checkbox_change_object:
  "tasks st = JArr xs \<Longrightarrow> i < length xs \<Longrightarrow> xs ! i = JObj ps \<Longrightarrow>
   checkbox_change (Some i) b st =
     andThen (saveTasks (st\<lparr>tasks := JArr (xs[i := JObj (AList.update (js ''completed'') (JBool b) ps)])\<rparr>))
       renderTasks"
  by (simp add: checkbox_change_def assignTask_object)

lemma setProp_again: "setProp y k v = Inr x \<Longrightarrow> setProp x k v = Inr x"
  by (cases y) auto

lemma assignTask_again: "assignTask t c k v = Inr ts \<Longrightarrow> assignTask ts c k v = Inr ts"
  by (cases t; cases c)
     (auto simp: assignTask_def split: if_splits sum.splits dest: setProp_again)

lemma saveTasks_again: "saveTasks (snd (saveTasks st)) = saveTasks st"
  by (cases "fits st") (auto simp: saveTasks_def setItem_def fits_def Let_def)

lemma tasks_update_same: "tasks s = ts \<Longrightarrow> s\<lparr>tasks := ts\<rparr> = s"
  by simp

lemma checkbox_change_again:
  "checkbox_change c v (snd (checkbox_change c v st)) = checkbox_change c v st"
proof (cases "assignTask (tasks st) c (js ''completed'') (JBool v)")
  case (Inl e)
  then show ?thesis by (simp add: checkbox_change_def)
next
  case (Inr ts)
  let ?st1 = "st\<lparr>tasks := ts\<rparr>"
  let ?st2 = "snd (saveTasks ?st1)"
  have r: "checkbox_change c v st = andThen (saveTasks ?st1) renderTasks"
    using Inr by (simp add: checkbox_change_def)
  have a: "assignTask (tasks ?st2) c (js ''completed'') (JBool v) = Inr ts"
    using Inr by (simp add: assignTask_again)
  have "checkbox_change c v ?st2 = andThen (saveTasks ?st2) renderTasks"
    using a by (simp add: checkbox_change_def tasks_update_same)
  then show ?thesis
    by (simp add: r saveTasks_again)
qed

lemma checkbox_change_repeat:
  "0 < n \<Longrightarrow> ((\<lambda>s. snd (checkbox_change c v s)) ^^ n) st = snd (checkbox_change c v st)"
proof (induction n)
  case 0
  then show ?case by simp
next
  case (Suc n)
  show ?case
  proof (cases "n = 0")
    case True
    then show ?thesis by simp
  next
    case False
    with Suc.IH have "((\<lambda>s. snd (checkbox_change c v s)) ^^ n) st = snd (checkbox_change c v st)"
      by simp
    then show ?thesis by (simp add: checkbox_change_again)
  qed
qed

section \<open>A storage with no room\<close>

lemma fits_no_room: "quota (localStorage st) = 0 \<Longrightarrow> \<not> fits st"
proof -
  assume q: "quota (localStorage st) = 0"
  have "js ''tasks'' \<in> fst ` set (AList.update (js ''tasks'') (tasksBlob (tasks st)) (items (localStorage st)))"
    by (simp add: dom_update)
  then obtain p where p: "p \<in> set (AList.update (js ''tasks'') (tasksBlob (tasks st)) (items (localStorage st)))"
      and k: "fst p = js ''tasks''"
    by auto
  have "length (fst p) + length (snd p) \<le> used (AList.update (js ''tasks'') (tasksBlob (tasks st)) (items (localStorage st)))"
    unfolding used_def using p by (simp add: member_le_sum_list)
  moreover have "0 < length (fst p)" by (simp add: k js_def)
  ultimately have "0 < used (AList.update (js ''tasks'') (tasksBlob (tasks st)) (items (localStorage st)))"
    by linarith
  with q show ?thesis by (simp add: fits_def)
qed

section \<open>The parsers consume their input\<close>

text \<open>
  Every parser that returns a value has read at least one code unit. The parsers of
  elements and members test this before they go on, which is what makes them terminate.
\<close>

lemma consTo_Some: "consTo x r = Some (s, rest) \<Longrightarrow> \<exists>s'. r = Some (s', rest)"
  by (cases r) (auto simp: consTo_def)

lemma parseChars_consumes: "parseChars cs = Some (s, r) \<Longrightarrow> length r < length cs"
proof (induction cs arbitrary: s rule: length_induct)
  case (1 cs)
  note IH = "1.IH"[rule_format] and prems = "1.prems"
  show ?case
  proof (cases cs)
    case Nil
    with prems show ?thesis by simp
  next
    case (Cons c cs')
    show ?thesis
    proof (cases "c = 0x22")
      case True
      with prems Cons show ?thesis by simp
    next
      case q: False
      show ?thesis
      proof (cases "c = 0x5C")
        case True
        show ?thesis
        proof (cases cs')
          case Nil
          with prems Cons q True show ?thesis by simp
        next
          case e: (Cons e r0)
          show ?thesis
          proof (cases "e = 0x75")
            case u: True
            from prems Cons q True e u obtain h3 h2 h1 h0 r' w
              where r0: "r0 = h3 # h2 # h1 # h0 # r'"
                and p: "consTo w (parseChars r') = Some (s, r)"
              by (auto split: list.splits option.splits)
            from consTo_Some[OF p] obtain s' where s': "parseChars r' = Some (s', r)" by blast
            have "length r' < length cs" by (simp add: Cons e r0)
            from IH[OF this s'] show ?thesis by (simp add: Cons e r0)
          next
            case nu: False
            from prems Cons q True e nu obtain w
              where p: "consTo w (parseChars r0) = Some (s, r)"
              by (auto split: option.splits)
            from consTo_Some[OF p] obtain s' where s': "parseChars r0 = Some (s', r)" by blast
            have "length r0 < length cs" by (simp add: Cons e)
            from IH[OF this s'] show ?thesis by (simp add: Cons e)
          qed
        qed
      next
        case False
        with prems Cons q have p: "consTo c (parseChars cs') = Some (s, r)"
          by (auto split: if_splits)
        from consTo_Some[OF p] obtain s' where s': "parseChars cs' = Some (s', r)" by blast
        have "length cs' < length cs" by (simp add: Cons)
        from IH[OF this s'] show ?thesis by (simp add: Cons)
      qed
    qed
  qed
qed

lemma parseDigits_consumes: "parseDigits cs = Some (ds, r) \<Longrightarrow> length r \<le> length cs"
  by (auto simp: parseDigits_def Let_def length_dropWhile_le split: if_splits)

lemma parseInt_consumes: "parseInt cs = Some (ds, r) \<Longrightarrow> length r < length cs"
  by (auto simp: parseInt_def length_dropWhile_le less_Suc_eq_le split: list.splits if_splits)

lemma parseFrac_consumes: "parseFrac cs = Some (ds, r) \<Longrightarrow> length r \<le> length cs"
  by (auto simp: parseFrac_def split: list.splits if_splits
      dest!: consTo_Some parseDigits_consumes)

lemma parseSign_consumes: "length (snd (parseSign cs)) \<le> length cs"
  by (auto simp: parseSign_def split: list.splits)

lemma parseExp_consumes: "parseExp cs = Some (ds, r) \<Longrightarrow> length r \<le> length cs"
proof (cases cs)
  case Nil
  assume "parseExp cs = Some (ds, r)"
  with Nil show ?thesis by (simp add: parseExp_def)
next
  case (Cons c r0)
  assume a: "parseExp cs = Some (ds, r)"
  show ?thesis
  proof (cases "c = 0x65 \<or> c = 0x45")
    case True
    with a Cons obtain ds' where "parseDigits (snd (parseSign r0)) = Some (ds', r)"
      by (auto simp: parseExp_def split: option.splits)
    then have "length r \<le> length (snd (parseSign r0))" by (rule parseDigits_consumes)
    with parseSign_consumes[of r0] Cons show ?thesis by simp
  next
    case False
    with a Cons show ?thesis by (auto simp: parseExp_def)
  qed
qed

lemma parseNumber_consumes: "parseNumber cs = Some (n, r) \<Longrightarrow> length r < length cs"
proof -
  assume a: "parseNumber cs = Some (n, r)"
  define r0 where "r0 = snd (case cs of [] \<Rightarrow> ([], cs) | c # r \<Rightarrow> if c = 0x2D then ([c], r) else ([], cs))"
  have r0: "length r0 \<le> length cs"
    by (auto simp: r0_def split: list.splits)
  from a obtain ip r1 fp r2 ep where
    1: "parseInt r0 = Some (ip, r1)" and 2: "parseFrac r1 = Some (fp, r2)"
    and 3: "parseExp r2 = Some (ep, r)"
    by (auto simp: parseNumber_def r0_def split_beta Let_def split: option.splits)
  from parseInt_consumes[OF 1] parseFrac_consumes[OF 2] parseExp_consumes[OF 3] r0
  show ?thesis by simp
qed

lemma skipWS_length: "length (skipWS cs) \<le> length cs"
  unfolding skipWS_def by (rule length_dropWhile_le)

lemma skipWS_Cons_length: "skipWS cs = c # r \<Longrightarrow> length r < length cs"
  using skipWS_length[of cs] by simp

lemma parseValue_step:
  assumes IHe: "\<And>ys vs r. length ys < length cs \<Longrightarrow> parseElements ys = Some (vs, r) \<Longrightarrow> length r < length ys"
    and IHm: "\<And>ys ms r. length ys < length cs \<Longrightarrow> parseMembers ys = Some (ms, r) \<Longrightarrow> length r < length ys"
    and p: "parseValue cs = Some (v, r)"
  shows "length r < length cs"
proof (cases "skipWS cs")
  case Nil
  with p show ?thesis by (simp add: parseValue.simps[of cs])
next
  case (Cons c r0)
  have r0: "length r0 < length cs" using Cons by (rule skipWS_Cons_length)
  have c0: "length (c # r0) \<le> length cs" using skipWS_length[of cs] Cons by simp
  note p' = p[unfolded parseValue.simps[of cs] Cons list.case]
  consider (str) "c = 0x22" | (arr) "c \<noteq> 0x22" "c = 0x5B" | (obj) "c \<noteq> 0x22" "c \<noteq> 0x5B" "c = 0x7B"
    | (other) "c \<noteq> 0x22" "c \<noteq> 0x5B" "c \<noteq> 0x7B"
    by blast
  then show ?thesis
  proof cases
    case str
    with p' obtain s where "parseChars r0 = Some (s, r)" by auto
    from parseChars_consumes[OF this] r0 show ?thesis by simp
  next
    case arr
    show ?thesis
    proof (cases "skipWS r0")
      case Nil
      with p' arr show ?thesis by simp
    next
      case c': (Cons c' r')
      show ?thesis
      proof (cases "c' = 0x5D")
        case True
        with p' arr c' have "r = r'" by simp
        with skipWS_Cons_length[OF c'] r0 show ?thesis by simp
      next
        case False
        with p' arr c' obtain vs where "parseElements r0 = Some (vs, r)" by auto
        from IHe[OF r0 this] r0 show ?thesis by simp
      qed
    qed
  next
    case obj
    show ?thesis
    proof (cases "skipWS r0")
      case Nil
      with p' obj show ?thesis by simp
    next
      case c': (Cons c' r')
      show ?thesis
      proof (cases "c' = 0x7D")
        case True
        with p' obj c' have "r = r'" by simp
        with skipWS_Cons_length[OF c'] r0 show ?thesis by simp
      next
        case False
        with p' obj c' obtain ms where "parseMembers r0 = Some (ms, r)" by auto
        from IHm[OF r0 this] r0 show ?thesis by simp
      qed
    qed
  next
    case other
    from p' other have "r = drop 3 r0 \<or> r = drop 4 r0 \<or> (\<exists>n. parseNumber (c # r0) = Some (n, r))"
      by (auto split: if_splits)
    then show ?thesis
    proof (elim disjE exE)
      fix n assume "parseNumber (c # r0) = Some (n, r)"
      from parseNumber_consumes[OF this] c0 show ?thesis by simp
    qed (use r0 in simp_all)
  qed
qed

lemma parseElements_step:
  assumes IHe: "\<And>ys vs r. length ys < length cs \<Longrightarrow> parseElements ys = Some (vs, r) \<Longrightarrow> length r < length ys"
    and p: "parseElements cs = Some (vs, r)"
  shows "length r < length cs"
proof -
  note p' = p[unfolded parseElements.simps[of cs]]
  from p' obtain v r1 where v: "parseValue cs = Some (v, r1)" by (auto split: option.splits)
  from p' v have g: "length r1 < length cs" by (auto split: if_splits)
  from p' v g obtain c r' where c: "skipWS r1 = c # r'" by (auto split: list.splits)
  have r': "length r' < length cs" using skipWS_Cons_length[OF c] g by simp
  show ?thesis
  proof (cases "c = 0x2C")
    case True
    with p' v g c have "consTo v (parseElements r') = Some (vs, r)" by simp
    from consTo_Some[OF this] obtain vs' where "parseElements r' = Some (vs', r)" by blast
    from IHe[OF r' this] r' show ?thesis by simp
  next
    case False
    with p' v g c have "r = r'" by (auto split: if_splits)
    with r' show ?thesis by simp
  qed
qed

lemma parseMembers_step:
  assumes IHm: "\<And>ys ms r. length ys < length cs \<Longrightarrow> parseMembers ys = Some (ms, r) \<Longrightarrow> length r < length ys"
    and p: "parseMembers cs = Some (ms, r)"
  shows "length r < length cs"
proof -
  note p' = p[unfolded parseMembers.simps[of cs]]
  from p' obtain q r0 where q: "skipWS cs = q # r0" by (auto split: list.splits)
  from p' q obtain k r1 where k: "parseChars r0 = Some (k, r1)"
    by (auto split: if_splits option.splits)
  from p' q k obtain colon r2 where c: "skipWS r1 = colon # r2"
    by (auto split: if_splits list.splits)
  from p' q k c obtain v r3 where v: "parseValue r2 = Some (v, r3)" and g: "length r3 < length cs"
    by (auto split: if_splits option.splits)
  from p' q k c v g obtain c' r4 where c': "skipWS r3 = c' # r4"
    by (auto split: if_splits list.splits)
  have r4: "length r4 < length cs" using skipWS_Cons_length[OF c'] g by simp
  show ?thesis
  proof (cases "c' = 0x2C")
    case True
    with p' q k c v g c' have "consTo (k, v) (parseMembers r4) = Some (ms, r)"
      by (auto split: if_splits)
    from consTo_Some[OF this] obtain ms' where "parseMembers r4 = Some (ms', r)" by blast
    from IHm[OF r4 this] r4 show ?thesis by simp
  next
    case False
    with p' q k c v g c' have "r = r4" by (auto split: if_splits)
    with r4 show ?thesis by simp
  qed
qed

lemma parsers_consume:
  "(\<forall>v r. parseValue cs = Some (v, r) \<longrightarrow> length r < length cs)
   \<and> (\<forall>vs r. parseElements cs = Some (vs, r) \<longrightarrow> length r < length cs)
   \<and> (\<forall>ms r. parseMembers cs = Some (ms, r) \<longrightarrow> length r < length cs)"
proof (induction cs rule: length_induct)
  case (1 cs)
  have IHe: "length r < length ys" if "length ys < length cs" "parseElements ys = Some (vs, r)" for ys vs r
    using "1.IH" that by blast
  have IHm: "length r < length ys" if "length ys < length cs" "parseMembers ys = Some (ms, r)" for ys ms r
    using "1.IH" that by blast
  show ?case
  proof (intro conjI allI impI)
    fix v r assume p: "parseValue cs = Some (v, r)"
    show "length r < length cs"
    proof (rule parseValue_step)
      show "parseValue cs = Some (v, r)" by (rule p)
    qed (erule (1) IHe, erule (1) IHm)
  next
    fix vs r assume p: "parseElements cs = Some (vs, r)"
    show "length r < length cs"
    proof (rule parseElements_step)
      show "parseElements cs = Some (vs, r)" by (rule p)
    qed (erule (1) IHe)
  next
    fix ms r assume p: "parseMembers cs = Some (ms, r)"
    show "length r < length cs"
    proof (rule parseMembers_step)
      show "parseMembers cs = Some (ms, r)" by (rule p)
    qed (erule (1) IHm)
  qed
qed

lemma parseValue_consumes: "parseValue cs = Some (v, r) \<Longrightarrow> length r < length cs"
  using parsers_consume[of cs] by blast

text \<open>So the length tests in the parsers of elements and members never fail.\<close>

lemma parseElements_unguarded:
  "parseElements cs =
     (case parseValue cs of
        None \<Rightarrow> None
      | Some (v, r) \<Rightarrow>
          (case skipWS r of
             [] \<Rightarrow> None
           | c # r' \<Rightarrow>
               if c = 0x2C then consTo v (parseElements r')
               else if c = 0x5D then Some ([v], r')
               else None))"
  by (subst parseElements.simps) (auto split: option.splits dest: parseValue_consumes)

lemma parseMembers_unguarded:
  "parseMembers cs =
     (case skipWS cs of
        [] \<Rightarrow> None
      | q # r0 \<Rightarrow>
          if q = 0x22 then
            (case parseChars r0 of
               None \<Rightarrow> None
             | Some (k, r1) \<Rightarrow>
                 (case skipWS r1 of
                    [] \<Rightarrow> None
                  | colon # r2 \<Rightarrow>
                      if colon = 0x3A then
                        (case parseValue r2 of
                           None \<Rightarrow> None
                         | Some (v, r3) \<Rightarrow>
                             (case skipWS r3 of
                                [] \<Rightarrow> None
                              | c # r4 \<Rightarrow>
                                  if c = 0x2C then consTo (k, v) (parseMembers r4)
                                  else if c = 0x7D then Some ([(k, v)], r4)
                                  else None))
                      else None))
          else None)"
proof -
  have g: "length r2 < length cs \<and> length r3 < length cs"
    if "skipWS cs = q # r0" "parseChars r0 = Some (k, r1)" "skipWS r1 = colon # r2"
      "parseValue r2 = Some (v, r3)" for q r0 k r1 colon r2 v r3
    using skipWS_Cons_length[OF that(1)] parseChars_consumes[OF that(2)]
      skipWS_Cons_length[OF that(3)] parseValue_consumes[OF that(4)]
    by simp
  show ?thesis
    by (subst parseMembers.simps) (auto split: option.splits list.splits dest: g)
qed

section \<open>Decoding what was encoded\<close>

subsection \<open>Strings\<close>

lemma unat_small: "n < 65536 \<Longrightarrow> unat (word_of_nat n :: codeunit) = n"
  by (simp add: unat_of_nat)

lemma unhex_hexDigit: "d < 16 \<Longrightarrow> unhex (hexDigit d) = Some d"
proof -
  assume d: "d < 16"
  have a: "unat (word_of_nat (48 + d) :: codeunit) = 48 + d"
    using d by (intro unat_small) simp
  have b: "unat (word_of_nat (87 + d) :: codeunit) = 87 + d"
    using d by (intro unat_small) simp
  show ?thesis
  proof (cases "d < 10")
    case True
    then show ?thesis
      unfolding hexDigit_def unhex_def word_le_nat_alt using a by simp
  next
    case False
    then show ?thesis
      unfolding hexDigit_def unhex_def word_le_nat_alt using b d by simp
  qed
qed

lemma hex_digits_sum:
  "4096 * (n div 4096) + 256 * (n div 256 mod 16) + 16 * (n div 16 mod 16) + n mod 16 = (n::nat)"
proof -
  have a: "n = 16 * (n div 16) + n mod 16" by simp
  have d1: "n div 16 div 16 = n div 256" by (simp add: div_mult2_eq[symmetric])
  have d2: "n div 256 div 16 = n div 4096" by (simp add: div_mult2_eq[symmetric])
  have "n div 16 = 16 * (n div 16 div 16) + n div 16 mod 16" by simp
  then have b: "n div 16 = 16 * (n div 256) + n div 16 mod 16"
    by (simp only: d1)
  have "n div 256 = 16 * (n div 256 div 16) + n div 256 mod 16" by simp
  then have c: "n div 256 = 16 * (n div 4096) + n div 256 mod 16"
    by (simp only: d2)
  from a b c show ?thesis by linarith
qed

lemma unat_codeunit_bound: "unat (c::codeunit) < 65536"
  using unsigned_less[of c] by simp

lemma unhex4_unicodeEscape:
  "unhex4 (hexDigit (unat c div 4096)) (hexDigit (unat c div 256 mod 16))
          (hexDigit (unat c div 16 mod 16)) (hexDigit (unat c mod 16)) = Some c"
proof -
  have "unat c div 4096 < 16"
    using unat_codeunit_bound[of c] by simp
  then show ?thesis
    by (simp add: unhex4_def unhex_hexDigit hex_digits_sum)
qed

lemma parseChars_unicodeEscape: "parseChars (unicodeEscape c @ r) = consTo c (parseChars r)"
  by (simp add: unicodeEscape_def Let_def unhex4_unicodeEscape)

lemma parseChars_quoteUnit: "parseChars (quoteUnit c @ r) = consTo c (parseChars r)"
  by (simp add: quoteUnit_def unescape_def parseChars_unicodeEscape)

lemma parseChars_high: "0xD800 \<le> c \<Longrightarrow> parseChars (c # r) = consTo c (parseChars r)"
proof -
  assume "0xD800 \<le> c"
  then have "55296 \<le> unat c"
    by (simp add: word_le_nat_alt)
  then have "c \<noteq> 0x22" "c \<noteq> 0x5C" "\<not> c < 0x20"
    by (auto simp: word_less_nat_alt)
  then show ?thesis by simp
qed

lemma parseChars_leading:
  "isLeadingSurrogate c \<Longrightarrow> parseChars (c # r) = consTo c (parseChars r)"
  by (simp only: isLeadingSurrogate_def parseChars_high)

lemma parseChars_trailing:
  "isTrailingSurrogate c \<Longrightarrow> parseChars (c # r) = consTo c (parseChars r)"
proof -
  assume "isTrailingSurrogate c"
  then have "56320 \<le> unat c"
    by (simp add: isTrailingSurrogate_def word_le_nat_alt)
  then have "0xD800 \<le> c"
    by (simp add: word_le_nat_alt)
  then show ?thesis by (rule parseChars_high)
qed

lemma consTo_prependTo: "consTo c (prependTo s r) = prependTo (c # s) r"
  by (cases r) (simp_all add: consTo_def prependTo_def)

lemma consTo_prependTo_Nil: "consTo c r = prependTo [c] r"
  by (cases r) (simp_all add: consTo_def prependTo_def)

lemma prependTo_Nil: "prependTo [] r = r"
  by (cases r) (simp_all add: prependTo_def)

lemma parseChars_quoteUnits: "parseChars (quoteUnits s @ r) = prependTo s (parseChars r)"
proof (induction s rule: quoteUnits.induct)
  case 1
  show ?case by (simp add: prependTo_Nil)
next
  case (2 c)
  show ?case
    by (simp add: parseChars_unicodeEscape parseChars_quoteUnit consTo_prependTo_Nil)
next
  case (3 c d cs)
  show ?case
  proof (cases "isLeadingSurrogate c")
    case lead: True
    show ?thesis
    proof (cases "isTrailingSurrogate d")
      case True
      have "parseChars (c # d # quoteUnits cs @ r) = consTo c (consTo d (parseChars (quoteUnits cs @ r)))"
        using lead True by (simp only: parseChars_leading parseChars_trailing)
      with lead True 3 show ?thesis
        by (simp add: consTo_prependTo)
    next
      case False
      with lead 3 show ?thesis
        by (simp add: parseChars_unicodeEscape consTo_prependTo)
    qed
  next
    case False
    with 3 show ?thesis
      by (simp add: parseChars_unicodeEscape parseChars_quoteUnit consTo_prependTo)
  qed
qed

lemma parseChars_quoted: "parseChars (quoteUnits s @ 0x22 # r) = Some (s, r)"
  by (simp add: parseChars_quoteUnits prependTo_def)

subsection \<open>Tasks and lists of tasks\<close>

lemma stringify_taskObj: "stringify (taskObj t) = Some (taskBlob t)"
  by (simp add: taskObj_def taskBlob_def js_def)

lemma skipWS_Cons: "\<not> isJSONWhiteSpace c \<Longrightarrow> skipWS (c # cs) = c # cs"
  by (simp add: skipWS_def)

lemma skipWS_Nil: "skipWS [] = []"
  by (simp add: skipWS_def)

lemma notWS:
  "\<not> isJSONWhiteSpace 0x22" "\<not> isJSONWhiteSpace 0x2C" "\<not> isJSONWhiteSpace 0x3A"
  "\<not> isJSONWhiteSpace 0x5B" "\<not> isJSONWhiteSpace 0x5D" "\<not> isJSONWhiteSpace 0x7B"
  "\<not> isJSONWhiteSpace 0x7D" "\<not> isJSONWhiteSpace 0x66" "\<not> isJSONWhiteSpace 0x74"
  by (simp_all add: isJSONWhiteSpace_def)

lemma parseValue_string: "parseValue (quoteJSONString s @ r) = Some (JStr s, r)"
  by (subst parseValue.simps)
     (simp add: quoteJSONString_def skipWS_Cons notWS parseChars_quoted)

lemma parseValue_bool:
  "parseValue ((if b then js ''true'' else js ''false'') @ r) = Some (JBool b, r)"
  by (subst parseValue.simps) (simp add: js_def skipWS_Cons notWS)

lemma parseMembers_comma:
  assumes "parseValue (v @ 0x2C # r) = Some (x, 0x2C # r)"
  shows "parseMembers (quoteJSONString k @ 0x3A # v @ 0x2C # r) = consTo (k, x) (parseMembers r)"
  by (subst parseMembers.simps)
     (simp add: assms quoteJSONString_def skipWS_Cons notWS parseChars_quoted)

lemma parseMembers_last:
  assumes "parseValue (v @ 0x7D # r) = Some (x, 0x7D # r)"
  shows "parseMembers (quoteJSONString k @ 0x3A # v @ 0x7D # r) = Some ([(k, x)], r)"
  by (subst parseMembers.simps)
     (simp add: assms quoteJSONString_def skipWS_Cons notWS parseChars_quoted)

lemma mkObject_task:
  "mkObject [(js ''text'', a), (js ''completed'', b), (js ''createdAt'', c)]
   = [(js ''text'', a), (js ''completed'', b), (js ''createdAt'', c)]"
  by (simp add: mkObject_def js_def)

lemma parseMembers_task:
  "parseMembers (quoteJSONString (js ''text'') @ 0x3A # quoteJSONString a @
     0x2C # quoteJSONString (js ''completed'') @ 0x3A #
       (if b then js ''true'' else js ''false'') @
     0x2C # quoteJSONString (js ''createdAt'') @ 0x3A # quoteJSONString d @ 0x7D # r)
   = Some ([(js ''text'', JStr a), (js ''completed'', JBool b), (js ''createdAt'', JStr d)], r)"
proof -
  have 3: "parseMembers (quoteJSONString (js ''createdAt'') @ 0x3A # quoteJSONString d @ 0x7D # r)
           = Some ([(js ''createdAt'', JStr d)], r)"
    by (rule parseMembers_last) (rule parseValue_string)
  have 2: "parseMembers (quoteJSONString (js ''completed'') @ 0x3A #
             (if b then js ''true'' else js ''false'') @
             0x2C # quoteJSONString (js ''createdAt'') @ 0x3A # quoteJSONString d @ 0x7D # r)
           = Some ([(js ''completed'', JBool b), (js ''createdAt'', JStr d)], r)"
    by (simp only: parseMembers_comma[OF parseValue_bool] 3 consTo_def option.map fst_conv snd_conv)
  show ?thesis
    by (simp only: parseMembers_comma[OF parseValue_string] 2 consTo_def option.map fst_conv snd_conv)
qed

lemma parseValue_object:
  "parseMembers (0x22 # cs) = Some (ms, r) \<Longrightarrow> parseValue (0x7B # 0x22 # cs) = Some (JObj (mkObject ms), r)"
  by (subst parseValue.simps) (simp add: skipWS_Cons notWS)

lemma parseValue_task: "parseValue (taskBlob t @ r) = Some (taskObj t, r)"
proof -
  obtain a b d where t: "t = (a, b, d)" by (cases t) auto
  let ?ms = "quoteUnits (js ''text'') @ 0x22 # 0x3A # quoteJSONString a @
     0x2C # quoteJSONString (js ''completed'') @ 0x3A #
       (if b then js ''true'' else js ''false'') @
     0x2C # quoteJSONString (js ''createdAt'') @ 0x3A # quoteJSONString d @ 0x7D # r"
  have e: "taskBlob t @ r = 0x7B # 0x22 # ?ms"
    by (simp add: t taskBlob_def quoteJSONString_def)
  have "parseMembers (0x22 # ?ms)
        = Some ([(js ''text'', JStr a), (js ''completed'', JBool b), (js ''createdAt'', JStr d)], r)"
    using parseMembers_task[of a b d r] by (simp add: quoteJSONString_def)
  then have "parseValue (0x7B # 0x22 # ?ms)
        = Some (JObj (mkObject [(js ''text'', JStr a), (js ''completed'', JBool b), (js ''createdAt'', JStr d)]), r)"
    by (rule parseValue_object)
  then have "parseValue (taskBlob t @ r)
        = Some (JObj (mkObject [(js ''text'', JStr a), (js ''completed'', JBool b), (js ''createdAt'', JStr d)]), r)"
    by (simp only: e)
  then show ?thesis
    by (simp add: mkObject_task taskObj_def t)
qed

lemma join_Cons: "ys \<noteq> [] \<Longrightarrow> join sep (x # ys) = x @ sep @ join sep ys"
  by (cases ys) simp_all

lemma taskBlob_nonempty: "taskBlob t = 0x7B # tl (taskBlob t)"
  by (simp add: taskBlob_def)

lemma taskBlob_not_Nil: "taskBlob t \<noteq> []"
  by (simp add: taskBlob_def)

lemma parseElements_last:
  "parseElements (taskBlob t @ 0x5D # r) = Some ([taskObj t], r)"
  by (subst parseElements.simps) (simp add: parseValue_task skipWS_Cons notWS taskBlob_not_Nil)

lemma parseElements_comma:
  "parseElements (taskBlob t @ 0x2C # r) = consTo (taskObj t) (parseElements r)"
  by (subst parseElements.simps) (simp add: parseValue_task skipWS_Cons notWS taskBlob_not_Nil)

lemma parseElements_tasks:
  "ts \<noteq> [] \<Longrightarrow>
   parseElements (join [0x2C] (map taskBlob ts) @ 0x5D # r) = Some (map taskObj ts, r)"
proof (induction ts rule: list_nonempty_induct)
  case (single t)
  show ?case by (simp add: parseElements_last)
next
  case (cons t ts)
  then show ?case
    by (simp add: join_Cons parseElements_comma consTo_def)
qed

lemma stringify_tasks:
  "stringify (JArr (map taskObj ts)) = Some (0x5B # join [0x2C] (map taskBlob ts) @ [0x5D])"
  by (simp add: stringify_taskObj js_def comp_def)

lemma join_tasks_head:
  "ts \<noteq> [] \<Longrightarrow> join [0x2C] (map taskBlob ts) = 0x7B # tl (join [0x2C] (map taskBlob ts))"
proof (induction ts rule: list_nonempty_induct)
  case (single t)
  show ?case using taskBlob_nonempty[of t] by simp
next
  case (cons t ts)
  then show ?case
    using taskBlob_nonempty[of t] by (simp add: join_Cons) (metis list.sel(3) append_Cons)
qed

lemma parseValue_tasks:
  "parseValue (0x5B # join [0x2C] (map taskBlob ts) @ [0x5D]) = Some (JArr (map taskObj ts), [])"
proof (cases "ts = []")
  case True
  then show ?thesis
    by (subst parseValue.simps) (simp add: skipWS_Cons notWS)
next
  case False
  obtain w where w: "join [0x2C] (map taskBlob ts) = 0x7B # w"
    using join_tasks_head[OF False] by blast
  have "parseElements (0x7B # w @ [0x5D]) = Some (map taskObj ts, [])"
    using parseElements_tasks[OF False, of "[]"] by (simp add: w)
  then show ?thesis
    by (subst parseValue.simps) (simp add: w skipWS_Cons notWS)
qed

lemma JSON_parse_tasks:
  "JSON_parse (tasksBlob (JArr (map taskObj ts))) = Inr (JArr (map taskObj ts))"
  by (simp add: tasksBlob_def stringify_tasks JSON_parse_def parseValue_tasks skipWS_Nil
      del: stringify.simps)

section \<open>Blank texts\<close>

lemma dropWhile_hd_self: "xs \<noteq> [] \<Longrightarrow> \<not> P (hd xs) \<Longrightarrow> dropWhile P xs = xs"
  by (cases xs) simp_all

lemma trim_trim: "trim (trim s) = trim s"
proof (cases "trim s = []")
  case True
  have "trim [] = []" by (simp add: trim_def)
  with True show ?thesis by simp
next
  case False
  let ?P = isWhiteSpace
  let ?u = "dropWhile ?P s"
  let ?w = "dropWhile ?P (rev ?u)"
  have t: "trim s = rev ?w" by (simp add: trim_def)
  from False have w: "?w \<noteq> []" by (simp add: t)
  then have hw: "\<not> ?P (hd ?w)" by (rule hd_dropWhile)
  have u: "?u \<noteq> []"
  proof
    assume e: "?u = []"
    have "?w = []" unfolding e by simp
    with w show False by contradiction
  qed
  then have hu: "\<not> ?P (hd ?u)" by (rule hd_dropWhile)
  have "rev ?u = takeWhile ?P (rev ?u) @ ?w" by simp
  then have "?u = rev ?w @ rev (takeWhile ?P (rev ?u))"
    by (metis rev_append rev_rev_ident)
  then have "hd ?u = hd (rev ?w)"
    using w by (metis hd_append2 rev_is_Nil_conv)
  with hu have "\<not> ?P (hd (rev ?w))" by simp
  then have 1: "dropWhile ?P (rev ?w) = rev ?w"
    using w by (intro dropWhile_hd_self) simp_all
  have 2: "dropWhile ?P ?w = ?w"
    using w hw by (rule dropWhile_hd_self)
  show ?thesis
    unfolding t by (simp add: trim_def[of "rev ?w"] 1 2)
qed

lemma blankText_taskObj: "blankText (taskObj t) = (trim (fst t) = [])"
  by (simp add: blankText_def taskObj_def getProp_def)

lemma getProp_setProp_other:
  "setProp y k v = Inr x \<Longrightarrow> k' \<noteq> k \<Longrightarrow> getProp x k' = getProp y k'"
  by (cases y) (auto simp: getProp_update)

lemma blankText_setProp_completed:
  "setProp y (js ''completed'') v = Inr x \<Longrightarrow> blankText x = blankText y"
  by (simp add: blankText_def getProp_setProp_other[of y "js ''completed''" v x] keys_distinct)

lemma blankText_setProp_text:
  "setProp y (js ''text'') (JStr s) = Inr x \<Longrightarrow> trim s \<noteq> [] \<Longrightarrow> blankText x \<Longrightarrow> blankText y"
  by (cases y) (auto simp: blankText_def getProp_update)

lemma textInvariant_JArr: "textInvariant (JArr xs) = (\<forall>x \<in> set xs. \<not> blankText x)"
  by (simp add: textInvariant_def list_ex_iff)

lemma set_removeAt: "set (removeAt i xs) \<subseteq> set xs"
  by (auto simp: removeAt_def dest: in_set_takeD in_set_dropD)

lemma set_insertAt: "set (insertAt j x ys) \<subseteq> insert x (set ys)"
  by (auto simp: insertAt_def dest: in_set_takeD in_set_dropD)

lemma textInvariant_addTask:
  "textInvariant (tasks st) \<Longrightarrow> textInvariant (tasks (snd (addTask now st)))"
  by (cases "tasks st")
     (auto simp: addTask_def Let_def snd_andThen_clear textInvariant_JArr newTask_taskObj
       blankText_taskObj trim_trim)

lemma textInvariant_removeBtn_click:
  "textInvariant (tasks st) \<Longrightarrow> textInvariant (tasks (snd (removeBtn_click i st)))"
proof (cases "tasks st")
  case (JArr xs)
  assume "textInvariant (tasks st)"
  with JArr set_removeAt[of i xs] show ?thesis
    by (auto simp: removeBtn_click_def snd_splice_remove textInvariant_JArr)
qed (auto simp: removeBtn_click_def)

lemma textInvariant_assignTask:
  assumes "textInvariant t" and "assignTask t c k v = Inr ts"
    and "\<And>y x. setProp y k v = Inr x \<Longrightarrow> blankText x \<Longrightarrow> blankText y"
  shows "textInvariant ts"
proof (cases "\<exists>p xs. c = Some p \<and> t = JArr xs \<and> p < length xs")
  case True
  then obtain p xs where c: "c = Some p" and t: "t = JArr xs" and p: "p < length xs"
    by blast
  with assms(2) obtain x where x: "setProp (xs ! p) k v = Inr x" and ts: "ts = JArr (xs[p := x])"
    by (auto simp: assignTask_def split: sum.splits)
  have "\<not> blankText (xs ! p)"
    using assms(1) p by (simp add: t textInvariant_JArr)
  with assms(3)[OF x] have "\<not> blankText x" by blast
  moreover have "set (xs[p := x]) \<subseteq> insert x (set xs)"
    by (rule set_update_subset_insert)
  ultimately show ?thesis
    using assms(1) by (auto simp: ts t textInvariant_JArr)
next
  case False
  with assms(2) have "ts = t"
    by (auto simp: assignTask_def split: option.splits jsval.splits if_splits)
  with assms(1) show ?thesis by simp
qed

lemma textInvariant_checkbox_change:
  "textInvariant (tasks st) \<Longrightarrow> textInvariant (tasks (snd (checkbox_change c b st)))"
proof (cases "assignTask (tasks st) c (js ''completed'') (JBool b)")
  case (Inl e)
  assume "textInvariant (tasks st)"
  with Inl show ?thesis by (simp add: checkbox_change_def)
next
  case (Inr ts)
  assume "textInvariant (tasks st)"
  then have "textInvariant ts"
    using Inr by (rule textInvariant_assignTask) (simp add: blankText_setProp_completed)
  with Inr show ?thesis by (simp add: checkbox_change_def)
qed

lemma textInvariant_editBtn_click:
  assumes "textInvariant (tasks st)"
  shows "textInvariant (tasks (snd (editBtn_click c e content st)))"
proof (cases "e \<and> trim content \<noteq> []")
  case False
  with assms show ?thesis by (auto simp: editBtn_click_def)
next
  case True
  show ?thesis
  proof (cases "assignTask (tasks st) c (js ''text'') (JStr (trim content))")
    case (Inl err)
    with assms True show ?thesis by (simp add: editBtn_click_def)
  next
    case (Inr ts)
    have "trim (trim content) \<noteq> []" using True by (simp add: trim_trim)
    with assms Inr have "textInvariant ts"
      by (intro textInvariant_assignTask[OF assms Inr]) (rule blankText_setProp_text)
    with Inr True show ?thesis by (simp add: editBtn_click_def)
  qed
qed

lemma textInvariant_handleDrop:
  assumes "textInvariant (tasks st)"
  shows "textInvariant (tasks (snd (handleDrop j st)))"
proof (cases "tasks st")
  case (JArr xs)
  show ?thesis
  proof (cases "draggedIndex st")
    case None
    with assms show ?thesis by (simp add: handleDrop_def)
  next
    case (Some d)
    show ?thesis
    proof (cases "d = j")
      case True
      with Some assms show ?thesis by (simp add: handleDrop_def)
    next
      case False
      let ?m = "case take (Suc 0) (drop d xs) of [] \<Rightarrow> JUndefined | x # _ \<Rightarrow> x"
      have t: "tasks (snd (handleDrop j st)) = JArr (insertAt j ?m (removeAt d xs))"
        using JArr Some False
        by (simp add: handleDrop_def split_beta Let_def snd_splice_remove fst_splice_remove
            snd_splice_insert)
      have m: "\<not> blankText ?m"
      proof (cases "d < length xs")
        case True
        then have "?m = xs ! d" by (simp add: take1_drop)
        with True assms show ?thesis by (simp add: JArr textInvariant_JArr)
      next
        case False
        then show ?thesis by (simp add: blankText_def getProp_def)
      qed
      have "set (insertAt j ?m (removeAt d xs)) \<subseteq> insert ?m (set xs)"
        using set_insertAt[of j ?m "removeAt d xs"] set_removeAt[of d xs] by auto
      with m assms show ?thesis
        by (auto simp: t JArr textInvariant_JArr)
    qed
  qed
qed (use assms in \<open>auto simp: handleDrop_def split: option.splits\<close>)

lemma textInvariant_deleteAllTasks: "textInvariant (tasks (snd (deleteAllTasks st)))"
  by (simp add: deleteAllTasks_def textInvariant_JArr)

section \<open>Facts about loading\<close>

lemma tasksBlob_tasks_not_Nil: "tasksBlob (JArr xs) \<noteq> []"
  by (simp add: tasksBlob_def js_def)

lemma loadTasks_absent:
  "getItem (localStorage st) (js ''tasks'') = None \<Longrightarrow> loadTasks st = (Returned, st\<lparr>tasks := JArr []\<rparr>)"
  by (simp add: loadTasks_def)

lemma loadTasks_empty:
  "getItem (localStorage st) (js ''tasks'') = Some [] \<Longrightarrow> loadTasks st = (Returned, st\<lparr>tasks := JArr []\<rparr>)"
  by (simp add: loadTasks_def)

lemma loadTasks_unparseable:
  "getItem (localStorage st) (js ''tasks'') = Some s \<Longrightarrow> JSON_parse s = Inl e \<Longrightarrow>
   loadTasks st = (Returned, st\<lparr>tasks := JArr []\<rparr>)"
  by (simp add: loadTasks_def)

lemma loadTasks_parsed:
  "getItem (localStorage st) (js ''tasks'') = Some s \<Longrightarrow> s \<noteq> [] \<Longrightarrow> JSON_parse s = Inr v \<Longrightarrow>
   loadTasks st = (Returned, st\<lparr>tasks := v\<rparr>)"
  by (simp add: loadTasks_def)

lemma loadTasks_returns: "fst (loadTasks st) = Returned"
  by (simp add: loadTasks_def split: option.split sum.split)

lemma loadTasks_rest:
  "draggedIndex (snd (loadTasks st)) = draggedIndex st"
  "todoInput (snd (loadTasks st)) = todoInput st"
  "localStorage (snd (loadTasks st)) = localStorage st"
  by (simp_all add: loadTasks_def split: option.split sum.split)

section \<open>Lists of tasks\<close>

text \<open>
  The handlers keep a list of tasks a list of tasks; the drop does when the recorded
  source, if there is one, is a row of the list. The empty list that \<open>loadTasks\<close> and
  \<open>deleteAllTasks\<close> give is one.
\<close>

lemma fieldsOf_taskObj: "fieldsOf (taskObj t) = t"
  by (simp add: fieldsOf_def taskObj_def getProp_def keys_distinct)

lemma isTask_taskObj: "isTask (taskObj t)"
  by (simp add: isTask_def fieldsOf_taskObj)

lemma isTask_iff: "isTask v \<longleftrightarrow> (\<exists>t. v = taskObj t)"
proof
  assume "isTask v"
  then have "v = taskObj (fieldsOf v)" by (simp add: isTask_def)
  then show "\<exists>t. v = taskObj t" by (rule exI)
next
  assume "\<exists>t. v = taskObj t"
  then obtain t where "v = taskObj t" by blast
  then show "isTask v" by (simp add: isTask_taskObj)
qed

lemma isTaskList_JArr: "isTaskList (JArr xs) = (\<forall>x \<in> set xs. isTask x)"
  by (simp add: isTaskList_def list_all_iff)

lemma isTaskList_iff: "isTaskList v \<longleftrightarrow> (\<exists>ts. v = JArr (map taskObj ts))"
proof
  assume a: "isTaskList v"
  then obtain xs where v: "v = JArr xs" by (cases v) (simp_all add: isTaskList_def)
  with a have "\<forall>x \<in> set xs. taskObj (fieldsOf x) = x"
    by (simp add: isTaskList_JArr isTask_def)
  then have "map taskObj (map fieldsOf xs) = xs"
    by (simp add: map_idI)
  with v show "\<exists>ts. v = JArr (map taskObj ts)" by metis
next
  assume "\<exists>ts. v = JArr (map taskObj ts)"
  then show "isTaskList v" by (auto simp: isTaskList_JArr isTask_taskObj)
qed

lemma setProp_completed_task:
  "setProp (taskObj t) (js ''completed'') (JBool b) = Inr (taskObj (fst t, b, snd (snd t)))"
  by (simp add: taskObj_def keys_distinct)

lemma setProp_text_task:
  "setProp (taskObj t) (js ''text'') (JStr s) = Inr (taskObj (s, snd t))"
  by (simp add: taskObj_def keys_distinct)

lemma isTask_setProp_completed:
  assumes "isTask y" and "setProp y (js ''completed'') (JBool b) = Inr x"
  shows "isTask x"
proof -
  from assms(1) obtain t where "y = taskObj t" unfolding isTask_iff by blast
  with assms(2) have "x = taskObj (fst t, b, snd (snd t))"
    by (simp add: setProp_completed_task)
  then show ?thesis by (simp add: isTask_taskObj)
qed

lemma isTask_setProp_text:
  assumes "isTask y" and "setProp y (js ''text'') (JStr s) = Inr x"
  shows "isTask x"
proof -
  from assms(1) obtain t where "y = taskObj t" unfolding isTask_iff by blast
  with assms(2) have "x = taskObj (s, snd t)"
    by (simp add: setProp_text_task)
  then show ?thesis by (simp add: isTask_taskObj)
qed

lemma isTaskList_assignTask:
  assumes "isTaskList t" and "assignTask t c k v = Inr ts"
    and "\<And>y x. isTask y \<Longrightarrow> setProp y k v = Inr x \<Longrightarrow> isTask x"
  shows "isTaskList ts"
proof (cases "\<exists>p xs. c = Some p \<and> t = JArr xs \<and> p < length xs")
  case True
  then obtain p xs where c: "c = Some p" and t: "t = JArr xs" and p: "p < length xs"
    by blast
  with assms(2) obtain x where x: "setProp (xs ! p) k v = Inr x" and ts: "ts = JArr (xs[p := x])"
    by (auto simp: assignTask_def split: sum.splits)
  have "isTask (xs ! p)"
    using assms(1) p by (simp add: t isTaskList_JArr)
  from assms(3)[OF this x] have "isTask x" .
  moreover have "set (xs[p := x]) \<subseteq> insert x (set xs)"
    by (rule set_update_subset_insert)
  ultimately show ?thesis
    using assms(1) by (auto simp: ts t isTaskList_JArr)
next
  case False
  with assms(2) have "ts = t"
    by (auto simp: assignTask_def split: option.splits jsval.splits if_splits)
  with assms(1) show ?thesis by simp
qed

lemma isTaskList_addTask: "isTaskList (tasks st) \<Longrightarrow> isTaskList (tasks (snd (addTask now st)))"
  by (cases "tasks st")
     (auto simp: addTask_def Let_def snd_andThen_clear isTaskList_JArr newTask_taskObj isTask_taskObj)

lemma isTaskList_removeBtn_click:
  "isTaskList (tasks st) \<Longrightarrow> isTaskList (tasks (snd (removeBtn_click i st)))"
proof (cases "tasks st")
  case (JArr xs)
  assume "isTaskList (tasks st)"
  with JArr set_removeAt[of i xs] show ?thesis
    by (auto simp: removeBtn_click_def snd_splice_remove isTaskList_JArr)
qed (auto simp: removeBtn_click_def isTaskList_def)

lemma isTaskList_checkbox_change:
  assumes "isTaskList (tasks st)"
  shows "isTaskList (tasks (snd (checkbox_change c b st)))"
proof (cases "assignTask (tasks st) c (js ''completed'') (JBool b)")
  case (Inl e)
  with assms show ?thesis by (simp add: checkbox_change_def)
next
  case (Inr ts)
  have "isTaskList ts"
    using assms Inr
    by (rule isTaskList_assignTask) (rule isTask_setProp_completed)
  with Inr show ?thesis by (simp add: checkbox_change_def)
qed

lemma isTaskList_editBtn_click:
  assumes "isTaskList (tasks st)"
  shows "isTaskList (tasks (snd (editBtn_click c e content st)))"
proof (cases "e \<and> trim content \<noteq> []")
  case False
  with assms show ?thesis by (auto simp: editBtn_click_def)
next
  case True
  show ?thesis
  proof (cases "assignTask (tasks st) c (js ''text'') (JStr (trim content))")
    case (Inl err)
    with assms True show ?thesis by (simp add: editBtn_click_def)
  next
    case (Inr ts)
    have "isTaskList ts"
      using assms Inr
      by (rule isTaskList_assignTask) (rule isTask_setProp_text)
    with Inr True show ?thesis by (simp add: editBtn_click_def)
  qed
qed

lemma isTaskList_handleDrop:
  assumes "isTaskList (tasks st)"
    and "\<And>d. draggedIndex st = Some d \<Longrightarrow> d < length (elements (tasks st))"
  shows "isTaskList (tasks (snd (handleDrop j st)))"
proof -
  from assms(1) obtain xs where xs: "tasks st = JArr xs"
    by (cases "tasks st") (simp_all add: isTaskList_def)
  show ?thesis
  proof (cases "draggedIndex st = None \<or> draggedIndex st = Some j")
    case True
    with assms(1) show ?thesis by (auto simp: handleDrop_def)
  next
    case False
    then obtain d where d: "draggedIndex st = Some d" "d \<noteq> j" by auto
    from assms(2)[OF d(1)] have r: "d < length xs" by (simp add: xs elements_def)
    have "set (insertAt j (xs ! d) (removeAt d xs)) \<subseteq> set xs"
      using set_insertAt[of j "xs ! d" "removeAt d xs"] set_removeAt[of d xs] r by auto
    with assms(1) show ?thesis
      by (auto simp: handleDrop_moves[OF xs d(1) r d(2)] xs isTaskList_JArr)
  qed
qed

lemma isTaskList_deleteAllTasks: "isTaskList (tasks (snd (deleteAllTasks st)))"
  by (simp add: deleteAllTasks_def isTaskList_JArr)

section \<open>Facts about the view\<close>

text \<open>
  The state a handler of the view leaves, and whether it throws, are those of the handler
  of the script run with the task the row holds.
\<close>

lemma saveAndRender_store:
  "fst (saveAndRender m st pg) = fst (andThen (saveTasks st) renderTasks)"
  "store (snd (saveAndRender m st pg)) = snd (andThen (saveTasks st) renderTasks)"
  by (cases "saveTasks st"; cases "fst (saveTasks st)";
      simp add: saveAndRender_def renderPage_def andThen_def split: outcome.split)+

lemma rowCheckbox_store:
  "k < length (rows pg) \<Longrightarrow>
   fst (rowCheckbox k b pg) = fst (checkbox_change (rows pg ! k) b (store pg))
   \<and> store (snd (rowCheckbox k b pg)) = snd (checkbox_change (rows pg ! k) b (store pg))"
  by (simp add: rowCheckbox_def checkbox_change_def saveAndRender_store split: sum.split)

lemma rowEdit_store:
  "k < length (rows pg) \<Longrightarrow>
   fst (rowEdit k e content pg) = fst (editBtn_click (rows pg ! k) e content (store pg))
   \<and> store (snd (rowEdit k e content pg)) = snd (editBtn_click (rows pg ! k) e content (store pg))"
  by (simp add: rowEdit_def editBtn_click_def saveAndRender_store renderPage_def Let_def
      split: sum.split)

lemma rowRemove_store:
  "k < length (rows pg) \<Longrightarrow>
   fst (rowRemove k pg) = fst (removeBtn_click k (store pg))
   \<and> store (snd (rowRemove k pg)) = snd (removeBtn_click k (store pg))"
  by (simp add: rowRemove_def removeBtn_click_def saveAndRender_store split: jsval.split)

lemma rowDragStart_store:
  "k < length (rows pg) \<Longrightarrow>
   fst (rowDragStart k pg) = fst (handleDragStart k (store pg))
   \<and> store (snd (rowDragStart k pg)) = snd (handleDragStart k (store pg))"
  by (simp add: rowDragStart_def handleDragStart_def)

lemma rowDrop_store:
  "k < length (rows pg) \<Longrightarrow>
   fst (rowDrop k pg) = fst (handleDrop k (store pg))
   \<and> store (snd (rowDrop k pg)) = snd (handleDrop k (store pg))"
  by (simp add: rowDrop_def handleDrop_def saveAndRender_store split_beta Let_def
      split: option.split jsval.split)

lemma pageDragEnd_store:
  "fst (pageDragEnd pg) = fst (handleDragEnd (store pg))
   \<and> store (snd (pageDragEnd pg)) = snd (handleDragEnd (store pg))"
  by (simp add: pageDragEnd_def handleDragEnd_def)

lemma pageDeleteAll_store:
  "fst (pageDeleteAll pg) = fst (deleteAllTasks (store pg))
   \<and> store (snd (pageDeleteAll pg)) = snd (deleteAllTasks (store pg))"
  by (simp add: pageDeleteAll_def deleteAllTasks_def saveAndRender_store)

lemma pageAdd_store:
  "fst (pageAdd now pg) = fst (addTask now (store pg))
   \<and> store (snd (pageAdd now pg)) = snd (addTask now (store pg))"
proof (cases "trim (todoInput (store pg)) = []")
  case True
  then show ?thesis by (simp add: pageAdd_def addTask_def)
next
  case False
  show ?thesis
  proof (cases "tasks (store pg)")
    case (JArr xs)
    let ?st = "(store pg)\<lparr>tasks := JArr (xs @ [newTask (trim (todoInput (store pg))) now])\<rparr>"
    obtain out pg' where r: "saveAndRender Some ?st pg = (out, pg')"
      by (cases "saveAndRender Some ?st pg")
    obtain out' st' where h: "andThen (saveTasks ?st) renderTasks = (out', st')"
      by (cases "andThen (saveTasks ?st) renderTasks")
    from saveAndRender_store[of Some ?st pg] r h have e: "out = out'" "store pg' = st'"
      by simp_all
    show ?thesis
      using False JArr r h e
      by (cases out') (simp_all add: pageAdd_def addTask_def Let_def)
  qed (use False in \<open>simp_all add: pageAdd_def addTask_def Let_def\<close>)
qed

lemma inSync_renderPage: "inSync (snd (renderPage pg))"
  by (simp add: inSync_def renderPage_def)

lemma saveAndRender_inSync:
  "fst (saveAndRender m st pg) \<noteq> Threw QuotaExceededError \<Longrightarrow> inSync (snd (saveAndRender m st pg))"
  by (cases "fits st")
     (simp_all add: saveAndRender_def saveTasks_fits saveTasks_full inSync_renderPage)

lemma inSync_row: "inSync pg \<Longrightarrow> k < length (rows pg) \<Longrightarrow> rows pg ! k = Some k"
  by (cases "tasks (store pg)") (auto simp: inSync_def rendered_def)

lemma rendered_taskList:
  "isTaskList (JArr xs) \<Longrightarrow> rendered (JArr xs) = map Some [0..<length xs]"
proof -
  assume a: "isTaskList (JArr xs)"
  have "\<forall>x \<in> set xs. x \<noteq> JNull \<and> x \<noteq> JUndefined"
  proof
    fix x assume "x \<in> set xs"
    with a obtain t where "x = taskObj t" by (auto simp: isTaskList_JArr isTask_iff)
    then show "x \<noteq> JNull \<and> x \<noteq> JUndefined" by (simp add: taskObj_def)
  qed
  then have "length (takeWhile (\<lambda>x. x \<noteq> JNull \<and> x \<noteq> JUndefined) xs) = length xs"
    by (simp add: takeWhile_eq_all_conv[THEN iffD2])
  then show ?thesis by (simp add: rendered_def)
qed

lemma afterRemove_follows:
  "q < length xs \<Longrightarrow> q \<noteq> k \<Longrightarrow>
   \<exists>q'. afterRemove k q = Some q' \<and> q' < length (removeAt k xs) \<and> removeAt k xs ! q' = xs ! q"
  by (auto simp: afterRemove_def removeAt_def nth_append min_def)

lemma afterInsert_follows:
  "q < length ys \<Longrightarrow>
   \<exists>q'. afterInsert j q = Some q' \<and> q' < length (insertAt j x ys) \<and> insertAt j x ys ! q' = ys ! q"
  by (auto simp: afterInsert_def insertAt_def nth_append min_def nth_Cons')

lemma afterMove_follows:
  assumes "q < length xs" and "d < length xs"
  shows "\<exists>q'. afterMove (length xs) d j q = Some q'
              \<and> q' < length (insertAt j (xs ! d) (removeAt d xs))
              \<and> insertAt j (xs ! d) (removeAt d xs) ! q' = xs ! q"
proof (cases "q = d")
  case True
  let ?ys = "removeAt d xs"
  have l: "length ?ys = length xs - 1"
    using assms by (simp add: length_removeAt)
  have m: "afterMove (length xs) d j q = Some (min j (length ?ys))"
    using assms True by (simp add: afterMove_def l)
  have "min j (length ?ys) < length (insertAt j (xs ! d) ?ys)"
    by (simp add: length_insertAt)
  moreover have "insertAt j (xs ! d) ?ys ! min j (length ?ys) = xs ! d"
    by (simp add: insertAt_def nth_append min_def)
  ultimately show ?thesis
    using m True by simp
next
  case False
  from afterRemove_follows[OF assms(1) False] obtain q1
    where 1: "afterRemove d q = Some q1" "q1 < length (removeAt d xs)"
      "removeAt d xs ! q1 = xs ! q"
    by blast
  from afterInsert_follows[OF 1(2), of j "xs ! d"] obtain q2
    where 2: "afterInsert j q1 = Some q2" "q2 < length (insertAt j (xs ! d) (removeAt d xs))"
      "insertAt j (xs ! d) (removeAt d xs) ! q2 = removeAt d xs ! q1"
    by blast
  show ?thesis
    using assms False 1 2 by (simp add: afterMove_def)
qed

lemma inSync_store_field:
  "inSync (pg\<lparr>store := (store pg)\<lparr>draggedIndex := d\<rparr>\<rparr>) = inSync pg"
  "inSync (pg\<lparr>store := (store pg)\<lparr>todoInput := t\<rparr>\<rparr>) = inSync pg"
  by (simp_all add: inSync_def)

lemma inSync_rowCheckbox:
  "inSync pg \<Longrightarrow> fst (rowCheckbox k b pg) = Returned \<Longrightarrow> inSync (snd (rowCheckbox k b pg))"
  by (auto simp: rowCheckbox_def saveAndRender_inSync split: if_splits sum.splits)

lemma inSync_rowEdit:
  "inSync pg \<Longrightarrow> fst (rowEdit k e content pg) = Returned \<Longrightarrow> inSync (snd (rowEdit k e content pg))"
  by (auto simp: rowEdit_def Let_def saveAndRender_inSync inSync_renderPage split: if_splits sum.splits)

lemma inSync_rowRemove:
  "inSync pg \<Longrightarrow> fst (rowRemove k pg) = Returned \<Longrightarrow> inSync (snd (rowRemove k pg))"
  by (auto simp: rowRemove_def saveAndRender_inSync split: if_splits jsval.splits)

lemma inSync_rowDragStart: "inSync pg \<Longrightarrow> inSync (snd (rowDragStart k pg))"
  by (simp add: rowDragStart_def inSync_store_field)

lemma inSync_pageDragEnd: "inSync pg \<Longrightarrow> inSync (snd (pageDragEnd pg))"
  by (simp add: pageDragEnd_def inSync_store_field)

lemma inSync_rowDrop:
  "inSync pg \<Longrightarrow> fst (rowDrop k pg) = Returned \<Longrightarrow> inSync (snd (rowDrop k pg))"
  by (auto simp: rowDrop_def split_beta Let_def saveAndRender_inSync
      split: if_splits option.splits jsval.splits)

lemma inSync_pageAdd:
  "inSync pg \<Longrightarrow> fst (pageAdd now pg) = Returned \<Longrightarrow> inSync (snd (pageAdd now pg))"
proof (cases "trim (todoInput (store pg)) = []")
  case True
  assume "inSync pg"
  with True show ?thesis by (simp add: pageAdd_def)
next
  case False
  assume r: "fst (pageAdd now pg) = Returned"
  show ?thesis
  proof (cases "tasks (store pg)")
    case (JArr xs)
    let ?st = "(store pg)\<lparr>tasks := JArr (xs @ [newTask (trim (todoInput (store pg))) now])\<rparr>"
    obtain out pg' where s: "saveAndRender Some ?st pg = (out, pg')"
      by (cases "saveAndRender Some ?st pg")
    from r False JArr s have o: "out = Returned"
      by (cases out) (simp_all add: pageAdd_def Let_def)
    with saveAndRender_inSync[of Some ?st pg] s have "inSync pg'" by simp
    with False JArr s o show ?thesis
      by (simp add: pageAdd_def Let_def inSync_store_field)
  qed (use r False in \<open>simp_all add: pageAdd_def Let_def\<close>)
qed

lemma inSync_pageDeleteAll:
  "fst (pageDeleteAll pg) = Returned \<Longrightarrow> inSync (snd (pageDeleteAll pg))"
  by (simp add: pageDeleteAll_def saveAndRender_inSync)

text \<open>
  A view that is out of step. The list is \<open>[A, B, C]\<close> and the storage has no room. The
  remove button of row 0 takes \<open>A\<close> out and throws before the view is drawn again, so the
  three rows stay. The checkbox of row 1 then completes \<open>B\<close>, now the first task of the
  list; the edit button of row 2 edits \<open>C\<close>, now the second, although the list has no
  index 2; and the checkbox of row 0 changes nothing in the list.
\<close>

lemma stale_rows_example:
  "rowRemove 0
     \<lparr>store = \<lparr>tasks = JArr [taskObj (js ''A'', False, js ''t1''), taskObj (js ''B'', False, js ''t2''),
                             taskObj (js ''C'', False, js ''t3'')],
               draggedIndex = None, todoInput = [], localStorage = \<lparr>items = [], quota = 0\<rparr>\<rparr>,
      rows = [Some 0, Some 1, Some 2]\<rparr>
   = (Threw QuotaExceededError,
      \<lparr>store = \<lparr>tasks = JArr [taskObj (js ''B'', False, js ''t2''), taskObj (js ''C'', False, js ''t3'')],
                draggedIndex = None, todoInput = [], localStorage = \<lparr>items = [], quota = 0\<rparr>\<rparr>,
       rows = [None, Some 0, Some 1]\<rparr>)
   \<and> rowCheckbox 1 True
     \<lparr>store = \<lparr>tasks = JArr [taskObj (js ''B'', False, js ''t2''), taskObj (js ''C'', False, js ''t3'')],
               draggedIndex = None, todoInput = [], localStorage = \<lparr>items = [], quota = 0\<rparr>\<rparr>,
      rows = [None, Some 0, Some 1]\<rparr>
   = (Threw QuotaExceededError,
      \<lparr>store = \<lparr>tasks = JArr [taskObj (js ''B'', True, js ''t2''), taskObj (js ''C'', False, js ''t3'')],
                draggedIndex = None, todoInput = [], localStorage = \<lparr>items = [], quota = 0\<rparr>\<rparr>,
       rows = [None, Some 0, Some 1]\<rparr>)
   \<and> rowEdit 2 True (js '' X '')
     \<lparr>store = \<lparr>tasks = JArr [taskObj (js ''B'', False, js ''t2''), taskObj (js ''C'', False, js ''t3'')],
               draggedIndex = None, todoInput = [], localStorage = \<lparr>items = [], quota = 0\<rparr>\<rparr>,
      rows = [None, Some 0, Some 1]\<rparr>
   = (Threw QuotaExceededError,
      \<lparr>store = \<lparr>tasks = JArr [taskObj (js ''B'', False, js ''t2''), taskObj (js ''X'', False, js ''t3'')],
                draggedIndex = None, todoInput = [], localStorage = \<lparr>items = [], quota = 0\<rparr>\<rparr>,
       rows = [None, Some 0, Some 1]\<rparr>)
   \<and> rowCheckbox 0 True
     \<lparr>store = \<lparr>tasks = JArr [taskObj (js ''B'', False, js ''t2''), taskObj (js ''C'', False, js ''t3'')],
               draggedIndex = None, todoInput = [], localStorage = \<lparr>items = [], quota = 0\<rparr>\<rparr>,
      rows = [None, Some 0, Some 1]\<rparr>
   = (Threw QuotaExceededError,
      \<lparr>store = \<lparr>tasks = JArr [taskObj (js ''B'', False, js ''t2''), taskObj (js ''C'', False, js ''t3'')],
                draggedIndex = None, todoInput = [], localStorage = \<lparr>items = [], quota = 0\<rparr>\<rparr>,
       rows = [None, Some 0, Some 1]\<rparr>)"
  by (simp add: rowRemove_def rowCheckbox_def rowEdit_def saveAndRender_def saveTasks_full
      fits_no_room splice_def afterRemove_def assignTask_def taskObj_def
      Let_def trim_def js_def isWhiteSpace_def)

lemma row_in_step:
  assumes "inSync pg" and "k < length (rows pg)"
  shows "fst (rowCheckbox k b pg) = fst (checkbox_change (Some k) b (store pg))"
    and "store (snd (rowCheckbox k b pg)) = snd (checkbox_change (Some k) b (store pg))"
    and "fst (rowEdit k e content pg) = fst (editBtn_click (Some k) e content (store pg))"
    and "store (snd (rowEdit k e content pg)) = snd (editBtn_click (Some k) e content (store pg))"
  using rowCheckbox_store[OF assms(2), of b] rowEdit_store[OF assms(2), of e content]
    inSync_row[OF assms]
  by simp_all

section \<open>Facts about saving\<close>

lemma stringify_JArr_tasksBlob: "stringify (JArr xs) = Some (tasksBlob (JArr xs))"
  by (simp add: tasksBlob_def)

lemma stored_saveTasks:
  "fits st \<Longrightarrow> getItem (localStorage (snd (saveTasks st))) (js ''tasks'') = Some (tasksBlob (tasks st))"
  using persisted_saveTasks[of st] by (simp add: persisted_def)

lemma stored_save_render:
  assumes "fits st" and "tasks st = JArr xs"
  shows "getItem (localStorage (snd (andThen (saveTasks st) renderTasks))) (js ''tasks'')
         = stringify (JArr xs)"
  using stored_saveTasks[OF assms(1)] assms(2)
  by (simp add: stringify_JArr_tasksBlob del: stringify.simps)

lemma JSON_parse_taskList: "isTaskList v \<Longrightarrow> JSON_parse (tasksBlob v) = Inr v"
  unfolding isTaskList_iff using JSON_parse_tasks by blast

lemma reload_stored:
  assumes "getItem (localStorage st) (js ''tasks'') = stringify (JArr xs)" and "isTaskList (JArr xs)"
  shows "tasks (snd (loadTasks (st\<lparr>tasks := other\<rparr>))) = JArr xs"
proof -
  have "getItem (localStorage (st\<lparr>tasks := other\<rparr>)) (js ''tasks'') = Some (tasksBlob (JArr xs))"
    using assms(1) by (simp add: stringify_JArr_tasksBlob del: stringify.simps)
  then have "loadTasks (st\<lparr>tasks := other\<rparr>) = (Returned, st\<lparr>tasks := other\<rparr>\<lparr>tasks := JArr xs\<rparr>)"
    using tasksBlob_tasks_not_Nil JSON_parse_taskList[OF assms(2)] by (rule loadTasks_parsed)
  then show ?thesis by simp
qed

lemma isTaskList_move:
  assumes "isTaskList (JArr xs)" and "i < length xs"
  shows "isTaskList (JArr (insertAt j (xs ! i) (removeAt i xs)))"
proof -
  have "set (insertAt j (xs ! i) (removeAt i xs)) \<subseteq> set xs"
    using set_insertAt[of j "xs ! i" "removeAt i xs"] set_removeAt[of i xs] assms(2) by auto
  with assms(1) show ?thesis by (auto simp: isTaskList_JArr)
qed

lemma stored_addTask:
  assumes "trim (todoInput st) \<noteq> []" and "tasks st = JArr xs"
    and "fits (st\<lparr>tasks := JArr (xs @ [taskObj (trim (todoInput st), False, now)])\<rparr>)"
  shows "getItem (localStorage (snd (addTask now st))) (js ''tasks'')
         = stringify (JArr (xs @ [taskObj (trim (todoInput st), False, now)]))"
proof -
  let ?t = "taskObj (trim (todoInput st), False, now)"
  let ?st' = "st\<lparr>tasks := JArr (xs @ [?t])\<rparr>"
  have "addTask now st = andThen (andThen (saveTasks ?st') renderTasks)
                  (\<lambda>st'. (Returned, st'\<lparr>todoInput := []\<rparr>))"
    using assms by (simp add: addTask_def Let_def newTask_taskObj)
  then have "localStorage (snd (addTask now st)) = localStorage (snd (saveTasks ?st'))"
    by (simp add: snd_andThen_clear)
  with stored_saveTasks[OF assms(3)] show ?thesis
    by (simp add: stringify_JArr_tasksBlob del: stringify.simps)
qed

lemma isTaskList_append_task:
  "isTaskList (JArr xs) \<Longrightarrow> isTaskList (JArr (xs @ [taskObj t]))"
  by (simp add: isTaskList_JArr isTask_taskObj)

section \<open>The properties\<close>

text \<open>
  C1. A drag that starts on row \<open>i\<close> and is dropped on row \<open>j\<close>, both rows of the list and
  different, takes the task at \<open>i\<close> out and puts it in at position \<open>j\<close> of the list
  without it: the list keeps its length, the moved task stands at \<open>j\<close>, and the other
  tasks keep their order. The new list is then saved: when the storage has room, the item
  stored under \<open>tasks\<close> is what \<open>JSON.stringify\<close> gives for the new list, and a load from
  that storage brings the new list back; when it has not, the handler throws
  QuotaExceededError. On \<open>[A, B, C]\<close> the move from 0 to 2 gives \<open>[B, C, A]\<close>, and the
  stored item then lists \<open>B\<close>, \<open>C\<close>, \<open>A\<close> in this order.
\<close>

theorem reorder_is_array_move:
  assumes "tasks st = JArr xs" and "i < length xs" and "j < length xs" and "i \<noteq> j"
  shows "let zs = insertAt j (xs ! i) (removeAt i xs);
             st' = st\<lparr>draggedIndex := Some i, tasks := JArr zs\<rparr>;
             r = handleDrop j (snd (handleDragStart i st))
         in r = andThen (saveTasks st') renderTasks
            \<and> tasks (snd r) = JArr zs
            \<and> length zs = length xs \<and> zs ! j = xs ! i \<and> removeAt j zs = removeAt i xs
            \<and> (fits st' \<longrightarrow> persisted (snd r))
            \<and> (fits st' \<longrightarrow>
                 getItem (localStorage (snd r)) (js ''tasks'') = stringify (JArr zs))
            \<and> (fits st' \<and> isTaskList (JArr xs) \<longrightarrow>
                 tasks (snd (loadTasks ((snd r)\<lparr>tasks := JArr []\<rparr>))) = JArr zs)
            \<and> (\<not> fits st' \<longrightarrow> fst r = Threw QuotaExceededError)"
proof -
  let ?zs = "insertAt j (xs ! i) (removeAt i xs)"
  let ?st' = "st\<lparr>draggedIndex := Some i, tasks := JArr ?zs\<rparr>"
  let ?r = "handleDrop j (snd (handleDragStart i st))"
  have r: "?r = andThen (saveTasks ?st') renderTasks"
    using assms by (simp add: handleDragStart_def handleDrop_moves)
  have len: "j \<le> length (removeAt i xs)"
    using assms by (simp add: length_removeAt)
  have "tasks (snd ?r) = JArr ?zs"
    by (simp add: r)
  moreover have "length ?zs = length xs"
    using assms by (simp add: length_insertAt length_removeAt)
  moreover have "?zs ! j = xs ! i"
    using len by (rule nth_insertAt)
  moreover have "removeAt j ?zs = removeAt i xs"
    using len by (rule removeAt_insertAt)
  moreover have "fits ?st' \<longrightarrow> persisted (snd ?r)"
    by (simp add: r persisted_saveTasks)
  moreover have g: "fits ?st' \<longrightarrow>
      getItem (localStorage (snd ?r)) (js ''tasks'') = stringify (JArr ?zs)"
    unfolding r by (rule impI, erule stored_save_render) simp
  moreover have "fits ?st' \<and> isTaskList (JArr xs) \<longrightarrow>
      tasks (snd (loadTasks ((snd ?r)\<lparr>tasks := JArr []\<rparr>))) = JArr ?zs"
  proof
    assume a: "fits ?st' \<and> isTaskList (JArr xs)"
    then have "getItem (localStorage (snd ?r)) (js ''tasks'') = stringify (JArr ?zs)"
      using g by blast
    moreover have "isTaskList (JArr ?zs)"
      using a assms(2) by (simp add: isTaskList_move)
    ultimately show "tasks (snd (loadTasks ((snd ?r)\<lparr>tasks := JArr []\<rparr>))) = JArr ?zs"
      by (rule reload_stored)
  qed
  moreover have "\<not> fits ?st' \<longrightarrow> fst ?r = Threw QuotaExceededError"
    by (simp add: r full_save_render)
  ultimately show ?thesis
    using r by (simp add: Let_def del: stringify.simps)
qed

theorem reorder_is_array_move_witness:
  "tasks (snd (handleDrop 2 (snd (handleDragStart 0
      \<lparr>tasks = JArr [taskObj (js ''A'', False, js ''t1''), taskObj (js ''B'', True, js ''t2''),
                     taskObj (js ''C'', False, js ''t3'')],
       draggedIndex = None, todoInput = [],
       localStorage = \<lparr>items = [], quota = 1000\<rparr>\<rparr>))))
   = JArr [taskObj (js ''B'', True, js ''t2''), taskObj (js ''C'', False, js ''t3''),
           taskObj (js ''A'', False, js ''t1'')]
   \<and> getItem (localStorage (snd (handleDrop 2 (snd (handleDragStart 0
      \<lparr>tasks = JArr [taskObj (js ''A'', False, js ''t1''), taskObj (js ''B'', True, js ''t2''),
                     taskObj (js ''C'', False, js ''t3'')],
       draggedIndex = None, todoInput = [],
       localStorage = \<lparr>items = [], quota = 1000\<rparr>\<rparr>))))) (js ''tasks'')
   = Some (js ''[{'' @ quoted ''text'' @ js '':'' @ quoted ''B'' @ js '','' @ quoted ''completed''
             @ js '':true,'' @ quoted ''createdAt'' @ js '':'' @ quoted ''t2''
           @ js ''},{'' @ quoted ''text'' @ js '':'' @ quoted ''C'' @ js '','' @ quoted ''completed''
             @ js '':false,'' @ quoted ''createdAt'' @ js '':'' @ quoted ''t3''
           @ js ''},{'' @ quoted ''text'' @ js '':'' @ quoted ''A'' @ js '','' @ quoted ''completed''
             @ js '':false,'' @ quoted ''createdAt'' @ js '':'' @ quoted ''t1'' @ js ''}]'')
   \<and> tasks (snd (loadTasks ((snd (handleDrop 2 (snd (handleDragStart 0
      \<lparr>tasks = JArr [taskObj (js ''A'', False, js ''t1''), taskObj (js ''B'', True, js ''t2''),
                     taskObj (js ''C'', False, js ''t3'')],
       draggedIndex = None, todoInput = [],
       localStorage = \<lparr>items = [], quota = 1000\<rparr>\<rparr>))))\<lparr>tasks := JArr []\<rparr>)))
   = JArr [taskObj (js ''B'', True, js ''t2''), taskObj (js ''C'', False, js ''t3''),
           taskObj (js ''A'', False, js ''t1'')]"
proof -
  have f: "fits \<lparr>tasks = JArr [taskObj (js ''B'', True, js ''t2''), taskObj (js ''C'', False, js ''t3''),
                     taskObj (js ''A'', False, js ''t1'')],
       draggedIndex = Some 0, todoInput = [], localStorage = \<lparr>items = [], quota = 1000\<rparr>\<rparr>"
    by (simp add: fits_def used_def tasksBlob_def taskObj_def js_def quoteJSONString_def
        quoteUnit_def isLeadingSurrogate_def isTrailingSurrogate_def)
  have l: "isTaskList (JArr [taskObj (js ''A'', False, js ''t1''), taskObj (js ''B'', True, js ''t2''),
                     taskObj (js ''C'', False, js ''t3'')])"
    by (simp add: isTaskList_JArr isTask_taskObj)
  have s: "stringify (JArr [taskObj (js ''B'', True, js ''t2''), taskObj (js ''C'', False, js ''t3''),
           taskObj (js ''A'', False, js ''t1'')])
     = Some (js ''[{'' @ quoted ''text'' @ js '':'' @ quoted ''B'' @ js '','' @ quoted ''completed''
             @ js '':true,'' @ quoted ''createdAt'' @ js '':'' @ quoted ''t2''
           @ js ''},{'' @ quoted ''text'' @ js '':'' @ quoted ''C'' @ js '','' @ quoted ''completed''
             @ js '':false,'' @ quoted ''createdAt'' @ js '':'' @ quoted ''t3''
           @ js ''},{'' @ quoted ''text'' @ js '':'' @ quoted ''A'' @ js '','' @ quoted ''completed''
             @ js '':false,'' @ quoted ''createdAt'' @ js '':'' @ quoted ''t1'' @ js ''}]'')"
    by (simp add: taskObj_def js_def quoted_def quoteJSONString_def
        quoteUnit_def isLeadingSurrogate_def isTrailingSurrogate_def)
  have t: "tasks \<lparr>tasks = JArr [taskObj (js ''A'', False, js ''t1''), taskObj (js ''B'', True, js ''t2''),
                     taskObj (js ''C'', False, js ''t3'')],
       draggedIndex = None, todoInput = [],
       localStorage = \<lparr>items = [], quota = 1000\<rparr>\<rparr>
     = JArr [taskObj (js ''A'', False, js ''t1''), taskObj (js ''B'', True, js ''t2''),
                     taskObj (js ''C'', False, js ''t3'')]"
    by simp
  have "0 < length [taskObj (js ''A'', False, js ''t1''), taskObj (js ''B'', True, js ''t2''),
                     taskObj (js ''C'', False, js ''t3'')]"
    and "2 < length [taskObj (js ''A'', False, js ''t1''), taskObj (js ''B'', True, js ''t2''),
                     taskObj (js ''C'', False, js ''t3'')]"
    and "(0::nat) \<noteq> 2"
    by simp_all
  note reorder_is_array_move[OF t this, unfolded Let_def, THEN conjunct2]
  with f l s show ?thesis
    by (simp add: insertAt_def removeAt_def del: stringify.simps)
qed

text \<open>
  C2 (as amended). A drop on the row the drag started from, and a drop while no drag source
  is recorded, return at once: the list, the storage and the rest of the state are what
  they were.
\<close>

theorem handleDrop_same_or_absent_source:
  "(draggedIndex st = None \<or> draggedIndex st = Some j) \<longrightarrow> handleDrop j st = (Returned, st)"
  by (auto simp: handleDrop_def)

theorem handleDrop_same_or_absent_source_witness:
  "handleDrop 1 (snd (handleDragStart 1
      \<lparr>tasks = JArr [taskObj (js ''A'', False, js ''t1''), taskObj (js ''B'', True, js ''t2'')],
       draggedIndex = None, todoInput = [], localStorage = \<lparr>items = [], quota = 1000\<rparr>\<rparr>))
   = (Returned,
      \<lparr>tasks = JArr [taskObj (js ''A'', False, js ''t1''), taskObj (js ''B'', True, js ''t2'')],
       draggedIndex = Some 1, todoInput = [], localStorage = \<lparr>items = [], quota = 1000\<rparr>\<rparr>)
   \<and> handleDrop 0 (snd (handleDragEnd
      \<lparr>tasks = JArr [taskObj (js ''A'', False, js ''t1''), taskObj (js ''B'', True, js ''t2'')],
       draggedIndex = Some 1, todoInput = [], localStorage = \<lparr>items = [], quota = 1000\<rparr>\<rparr>))
   = (Returned,
      \<lparr>tasks = JArr [taskObj (js ''A'', False, js ''t1''), taskObj (js ''B'', True, js ''t2'')],
       draggedIndex = None, todoInput = [], localStorage = \<lparr>items = [], quota = 1000\<rparr>\<rparr>)"
  using handleDrop_same_or_absent_source
    [of "snd (handleDragStart 1
      \<lparr>tasks = JArr [taskObj (js ''A'', False, js ''t1''), taskObj (js ''B'', True, js ''t2'')],
       draggedIndex = None, todoInput = [], localStorage = \<lparr>items = [], quota = 1000\<rparr>\<rparr>)" 1]
    handleDrop_same_or_absent_source
    [of "snd (handleDragEnd
      \<lparr>tasks = JArr [taskObj (js ''A'', False, js ''t1''), taskObj (js ''B'', True, js ''t2'')],
       draggedIndex = Some 1, todoInput = [], localStorage = \<lparr>items = [], quota = 1000\<rparr>\<rparr>)" 0]
  by (simp add: handleDragStart_def handleDragEnd_def)

text \<open>
  The handler guards against nothing else. With a recorded source beyond the end of the
  list the first \<open>splice\<close> removes nothing, \<open>movedTask\<close> is \<open>undefined\<close>, and the second
  \<open>splice\<close> puts it into the list, which is then saved.
\<close>

theorem handleDrop_source_out_of_range_counterexample:
  "tasks (snd (handleDrop 0 (snd (handleDragStart 5
      \<lparr>tasks = JArr [taskObj (js ''A'', False, js ''t1'')],
       draggedIndex = None, todoInput = [], localStorage = \<lparr>items = [], quota = 1000\<rparr>\<rparr>))))
   = JArr [JUndefined, taskObj (js ''A'', False, js ''t1'')]
   \<and> getItem (localStorage (snd (handleDrop 0 (snd (handleDragStart 5
      \<lparr>tasks = JArr [taskObj (js ''A'', False, js ''t1'')],
       draggedIndex = None, todoInput = [], localStorage = \<lparr>items = [], quota = 1000\<rparr>\<rparr>)))))
        (js ''tasks'')
   = Some (js ''[null,{'' @ quoteJSONString (js ''text'') @ js '':'' @ quoteJSONString (js ''A'') @ js '','' @
           quoteJSONString (js ''completed'') @ js '':false,'' @
           quoteJSONString (js ''createdAt'') @ js '':'' @ quoteJSONString (js ''t1'') @ js ''}]'')
   \<and> getItem \<lparr>items = [], quota = 1000\<rparr> (js ''tasks'') = None"
  by (simp add: handleDrop_def handleDragStart_def splice_def Let_def saveTasks_def setItem_def
      used_def tasksBlob_def taskObj_def getItem_def renderTasks_def andThen_def
      quoteJSONString_def quoteUnit_def isLeadingSurrogate_def isTrailingSurrogate_def js_def)

text \<open>
  C3 (as amended). \<open>loadTasks\<close> never throws and changes nothing but the list. The list
  is empty when the item is absent, when it is the empty string, and when \<open>JSON.parse\<close>
  rejects it.
\<close>

theorem loadTasks_tolerant:
  "fst (loadTasks st) = Returned
   \<and> draggedIndex (snd (loadTasks st)) = draggedIndex st
   \<and> todoInput (snd (loadTasks st)) = todoInput st
   \<and> localStorage (snd (loadTasks st)) = localStorage st
   \<and> (getItem (localStorage st) (js ''tasks'') = None \<longrightarrow> tasks (snd (loadTasks st)) = JArr [])
   \<and> (getItem (localStorage st) (js ''tasks'') = Some [] \<longrightarrow> tasks (snd (loadTasks st)) = JArr [])
   \<and> (getItem (localStorage st) (js ''tasks'') = Some s \<and> JSON_parse s = Inl e \<longrightarrow>
        tasks (snd (loadTasks st)) = JArr [])"
  by (auto simp: loadTasks_returns loadTasks_rest loadTasks_absent loadTasks_empty
      loadTasks_unparseable)

theorem loadTasks_tolerant_witness:
  "fst (loadTasks \<lparr>tasks = JNull, draggedIndex = None, todoInput = [],
               localStorage = \<lparr>items = [(js ''darkMode'', js ''true'')], quota = 1000\<rparr>\<rparr>)
   = Returned
   \<and> tasks (snd (loadTasks \<lparr>tasks = JNull, draggedIndex = None, todoInput = [],
               localStorage = \<lparr>items = [(js ''darkMode'', js ''true'')], quota = 1000\<rparr>\<rparr>))
   = JArr []
   \<and> tasks (snd (loadTasks \<lparr>tasks = JNull, draggedIndex = None, todoInput = [],
               localStorage = \<lparr>items = [(js ''tasks'', [])], quota = 1000\<rparr>\<rparr>))
   = JArr []
   \<and> tasks (snd (loadTasks \<lparr>tasks = JNull, draggedIndex = None, todoInput = [],
               localStorage = \<lparr>items = [(js ''tasks'', js ''[{bad'')], quota = 1000\<rparr>\<rparr>))
   = JArr []"
proof -
  have p: "JSON_parse (js ''[{bad'') = Inl SyntaxError"
    by (simp add: JSON_parse_def parseValue.simps parseElements.simps parseMembers.simps
        js_def skipWS_def isJSONWhiteSpace_def)
  show ?thesis
    using
      loadTasks_tolerant[of "\<lparr>tasks = JNull, draggedIndex = None, todoInput = [],
               localStorage = \<lparr>items = [(js ''darkMode'', js ''true'')], quota = 1000\<rparr>\<rparr>"]
      loadTasks_tolerant[of "\<lparr>tasks = JNull, draggedIndex = None, todoInput = [],
               localStorage = \<lparr>items = [(js ''tasks'', [])], quota = 1000\<rparr>\<rparr>"]
      loadTasks_tolerant[of "\<lparr>tasks = JNull, draggedIndex = None, todoInput = [],
               localStorage = \<lparr>items = [(js ''tasks'', js ''[{bad'')], quota = 1000\<rparr>\<rparr>"
               "js ''[{bad''" SyntaxError]
      p
    by (simp add: getItem_def) (simp add: js_def)
qed

text \<open>
  An item that \<open>JSON.parse\<close> accepts is assigned to \<open>tasks\<close> unchecked. The item \<open>{}\<close>
  is no encoding of a list of tasks, yet it parses: \<open>tasks\<close> is then an object, not the
  empty list, and the first \<open>renderTasks\<close> throws.
\<close>

theorem loadTasks_not_a_list_counterexample:
  "tasks (snd (loadTasks \<lparr>tasks = JArr [], draggedIndex = None, todoInput = [],
               localStorage = \<lparr>items = [(js ''tasks'', js ''{}'')], quota = 1000\<rparr>\<rparr>))
   = JObj []
   \<and> fst (renderTasks (snd (loadTasks \<lparr>tasks = JArr [], draggedIndex = None, todoInput = [],
               localStorage = \<lparr>items = [(js ''tasks'', js ''{}'')], quota = 1000\<rparr>\<rparr>)))
   = Threw TypeError"
  by (simp add: loadTasks_def getItem_def JSON_parse_def parseValue.simps renderTasks_def
      js_def skipWS_def isJSONWhiteSpace_def)

text \<open>
  C4 (as amended). When no task of the list has a text that is empty or whitespace only,
  none has after \<open>addTask\<close>, after the remove button, the checkbox and the edit button of
  any row, wherever the task it holds now stands, after a drag start, a drop and a drag end, and after \<open>deleteAllTasks\<close>. After
  \<open>loadTasks\<close> the list is empty, and so free of blank texts, when the stored item is
  absent, empty or rejected by \<open>JSON.parse\<close>; and it is the stored list when the item is
  the encoding of a list of tasks, which is free of blank texts when that list is.
\<close>

theorem textInvariant_preserved:
  assumes "textInvariant (tasks st)"
  shows "textInvariant (tasks (snd (addTask now st)))
     \<and> textInvariant (tasks (snd (removeBtn_click i st)))
     \<and> textInvariant (tasks (snd (checkbox_change c b st)))
     \<and> textInvariant (tasks (snd (editBtn_click c e content st)))
     \<and> textInvariant (tasks (snd (handleDragStart i st)))
     \<and> textInvariant (tasks (snd (handleDrop i st)))
     \<and> textInvariant (tasks (snd (handleDragEnd st)))
     \<and> textInvariant (tasks (snd (deleteAllTasks st)))
     \<and> (getItem (localStorage st) (js ''tasks'') = None
          \<or> (getItem (localStorage st) (js ''tasks'') = Some s \<and> (s = [] \<or> JSON_parse s = Inl err)) \<longrightarrow>
          tasks (snd (loadTasks st)) = JArr [] \<and> textInvariant (tasks (snd (loadTasks st))))
     \<and> (getItem (localStorage st) (js ''tasks'') = Some (tasksBlob (JArr (map taskObj ts)))
          \<and> textInvariant (JArr (map taskObj ts)) \<longrightarrow>
          tasks (snd (loadTasks st)) = JArr (map taskObj ts)
          \<and> textInvariant (tasks (snd (loadTasks st))))"
proof -
  have l1: "tasks (snd (loadTasks st)) = JArr [] \<and> textInvariant (tasks (snd (loadTasks st)))"
    if "getItem (localStorage st) (js ''tasks'') = None
          \<or> (getItem (localStorage st) (js ''tasks'') = Some s \<and> (s = [] \<or> JSON_parse s = Inl err))"
    using that
    by (auto simp: loadTasks_absent loadTasks_empty loadTasks_unparseable textInvariant_JArr)
  have l2: "tasks (snd (loadTasks st)) = JArr (map taskObj ts)"
    if "getItem (localStorage st) (js ''tasks'') = Some (tasksBlob (JArr (map taskObj ts)))"
    using that tasksBlob_tasks_not_Nil[of "map taskObj ts"] JSON_parse_tasks[of ts]
    by (simp add: loadTasks_parsed)
  show ?thesis
    using assms l1 l2
    by (simp add: textInvariant_addTask textInvariant_removeBtn_click
        textInvariant_checkbox_change textInvariant_editBtn_click textInvariant_handleDrop
        textInvariant_deleteAllTasks handleDragStart_def handleDragEnd_def textInvariant_JArr)
qed

theorem textInvariant_preserved_witness:
  "textInvariant (tasks (snd (addTask (js ''now'')
      \<lparr>tasks = JArr [taskObj (js ''A'', False, js ''t1'')], draggedIndex = Some 0,
       todoInput = js '' B '',
       localStorage = \<lparr>items = [(js ''tasks'', tasksBlob (JArr (map taskObj [(js ''C'', True, js ''t0'')])))],
                       quota = 1000\<rparr>\<rparr>)))
   \<and> textInvariant (tasks (snd (editBtn_click (Some 0) True (js ''  '')
      \<lparr>tasks = JArr [taskObj (js ''A'', False, js ''t1'')], draggedIndex = Some 0,
       todoInput = js '' B '',
       localStorage = \<lparr>items = [(js ''tasks'', tasksBlob (JArr (map taskObj [(js ''C'', True, js ''t0'')])))],
                       quota = 1000\<rparr>\<rparr>)))
   \<and> tasks (snd (loadTasks
      \<lparr>tasks = JArr [taskObj (js ''A'', False, js ''t1'')], draggedIndex = Some 0,
       todoInput = js '' B '',
       localStorage = \<lparr>items = [(js ''tasks'', tasksBlob (JArr (map taskObj [(js ''C'', True, js ''t0'')])))],
                       quota = 1000\<rparr>\<rparr>))
     = JArr [taskObj (js ''C'', True, js ''t0'')]
   \<and> textInvariant (tasks (snd (loadTasks
      \<lparr>tasks = JArr [taskObj (js ''A'', False, js ''t1'')], draggedIndex = Some 0,
       todoInput = js '' B '',
       localStorage = \<lparr>items = [(js ''tasks'', tasksBlob (JArr (map taskObj [(js ''C'', True, js ''t0'')])))],
                       quota = 1000\<rparr>\<rparr>)))
   \<and> tasks (snd (loadTasks
      \<lparr>tasks = JArr [taskObj (js ''A'', False, js ''t1'')], draggedIndex = Some 0,
       todoInput = js '' B '', localStorage = \<lparr>items = [], quota = 1000\<rparr>\<rparr>))
     = JArr []"
proof -
  have a: "textInvariant (tasks
      \<lparr>tasks = JArr [taskObj (js ''A'', False, js ''t1'')], draggedIndex = Some 0,
       todoInput = js '' B '',
       localStorage = \<lparr>items = [(js ''tasks'', tasksBlob (JArr (map taskObj [(js ''C'', True, js ''t0'')])))],
                       quota = 1000\<rparr>\<rparr>)"
    by (simp add: textInvariant_JArr blankText_taskObj trim_def js_def isWhiteSpace_def)
  have a2: "textInvariant (tasks
      \<lparr>tasks = JArr [taskObj (js ''A'', False, js ''t1'')], draggedIndex = Some 0,
       todoInput = js '' B '', localStorage = \<lparr>items = [], quota = 1000\<rparr>\<rparr>)"
    by (simp add: textInvariant_JArr blankText_taskObj trim_def js_def isWhiteSpace_def)
  have b: "textInvariant (JArr (map taskObj [(js ''C'', True, js ''t0'')]))"
    by (simp add: textInvariant_JArr blankText_taskObj trim_def js_def isWhiteSpace_def)
  from textInvariant_preserved
         [OF a, where now = "js ''now''" and i = 0 and c = "Some 0" and b = True and e = True
            and content = "js ''  ''" and ts = "[(js ''C'', True, js ''t0'')]"]
       textInvariant_preserved[OF a2] b
  show ?thesis
    by (simp add: getItem_def del: stringify.simps)
qed

text \<open>
  \<open>loadTasks\<close> takes what the storage holds and checks no text: the item
  \<open>[{"text":""}]\<close> gives a list whose only task has the empty text.
\<close>

theorem loadTasks_blank_text_counterexample:
  "textInvariant (tasks
      \<lparr>tasks = JArr [], draggedIndex = None, todoInput = [],
       localStorage = \<lparr>items = [(js ''tasks'',
          js ''[{'' @ [0x22] @ js ''text'' @ [0x22] @ js '':'' @ [0x22, 0x22] @ js ''}]'')],
          quota = 1000\<rparr>\<rparr>)
   \<and> tasks (snd (loadTasks
      \<lparr>tasks = JArr [], draggedIndex = None, todoInput = [],
       localStorage = \<lparr>items = [(js ''tasks'',
          js ''[{'' @ [0x22] @ js ''text'' @ [0x22] @ js '':'' @ [0x22, 0x22] @ js ''}]'')],
          quota = 1000\<rparr>\<rparr>))
     = JArr [JObj [(js ''text'', JStr [])]]
   \<and> \<not> textInvariant (tasks (snd (loadTasks
      \<lparr>tasks = JArr [], draggedIndex = None, todoInput = [],
       localStorage = \<lparr>items = [(js ''tasks'',
          js ''[{'' @ [0x22] @ js ''text'' @ [0x22] @ js '':'' @ [0x22, 0x22] @ js ''}]'')],
          quota = 1000\<rparr>\<rparr>)))"
  by (simp add: loadTasks_def getItem_def textInvariant_JArr blankText_def getProp_def trim_def
      JSON_parse_def parseValue.simps parseElements.simps parseMembers.simps
      js_def skipWS_def isJSONWhiteSpace_def consTo_def mkObject_def)

text \<open>
  C5. For every list of tasks, each with a text, a completion flag and a creation time,
  \<open>JSON.parse\<close> of what \<open>saveTasks\<close> writes is the list itself: the same tasks with the
  same three fields in the same order. So after a save that the storage accepted,
  \<open>loadTasks\<close> leaves the state as it is, and from any other list in memory it brings
  the saved list back. The lists of tasks are the lists that the handlers build from the
  empty list, as the facts on \<open>isTaskList\<close> above show.
\<close>

theorem save_load_roundtrip:
  "JSON_parse (tasksBlob (JArr (map taskObj ts))) = Inr (JArr (map taskObj ts))
   \<and> (tasks st = JArr (map taskObj ts) \<and> fits st \<longrightarrow>
        loadTasks (snd (saveTasks st)) = (Returned, snd (saveTasks st))
        \<and> tasks (snd (loadTasks ((snd (saveTasks st))\<lparr>tasks := other\<rparr>))) = JArr (map taskObj ts))
   \<and> (isTaskList (tasks st) \<and> fits st \<longrightarrow>
        loadTasks (snd (saveTasks st)) = (Returned, snd (saveTasks st))
        \<and> tasks (snd (loadTasks ((snd (saveTasks st))\<lparr>tasks := other\<rparr>))) = tasks st)"
proof -
  have rt: "loadTasks (snd (saveTasks s)) = (Returned, snd (saveTasks s))
        \<and> tasks (snd (loadTasks ((snd (saveTasks s))\<lparr>tasks := other\<rparr>))) = JArr (map taskObj us)"
    if a: "tasks s = JArr (map taskObj us)" "fits s" for s us
  proof -
    let ?st' = "snd (saveTasks s)"
    have g: "getItem (localStorage ?st') (js ''tasks'') = Some (tasksBlob (JArr (map taskObj us)))"
      using a persisted_saveTasks[of s] by (simp add: persisted_def)
    have t: "tasks ?st' = JArr (map taskObj us)"
      using a by simp
    have "loadTasks ?st' = (Returned, ?st'\<lparr>tasks := JArr (map taskObj us)\<rparr>)"
      using g tasksBlob_tasks_not_Nil JSON_parse_tasks by (rule loadTasks_parsed)
    then have 1: "loadTasks ?st' = (Returned, ?st')"
      by (simp add: tasks_update_same[OF t])
    have "getItem (localStorage (?st'\<lparr>tasks := other\<rparr>)) (js ''tasks'')
          = Some (tasksBlob (JArr (map taskObj us)))"
      using g by simp
    then have "loadTasks (?st'\<lparr>tasks := other\<rparr>)
          = (Returned, ?st'\<lparr>tasks := other\<rparr>\<lparr>tasks := JArr (map taskObj us)\<rparr>)"
      using tasksBlob_tasks_not_Nil JSON_parse_tasks by (rule loadTasks_parsed)
    then have "tasks (snd (loadTasks (?st'\<lparr>tasks := other\<rparr>))) = JArr (map taskObj us)"
      by simp
    with 1 show ?thesis by simp
  qed
  have 3: "loadTasks (snd (saveTasks st)) = (Returned, snd (saveTasks st))
        \<and> tasks (snd (loadTasks ((snd (saveTasks st))\<lparr>tasks := other\<rparr>))) = tasks st"
    if b: "isTaskList (tasks st)" "fits st"
  proof -
    from b(1) obtain us where us: "tasks st = JArr (map taskObj us)"
      unfolding isTaskList_iff by blast
    from rt[OF us b(2)] us show ?thesis by simp
  qed
  show ?thesis
    using JSON_parse_tasks[of ts] rt[of st ts] 3 by blast
qed

theorem save_load_roundtrip_witness:
  "JSON_parse (tasksBlob (JArr [taskObj (js ''Buy milk'', True, js ''2024-05-01T10:00:00.000Z''),
                                taskObj (js ''Call Bob'', False, js ''2024-05-01T10:05:00.000Z'')]))
   = Inr (JArr [taskObj (js ''Buy milk'', True, js ''2024-05-01T10:00:00.000Z''),
                taskObj (js ''Call Bob'', False, js ''2024-05-01T10:05:00.000Z'')])
   \<and> tasks (snd (loadTasks ((snd (saveTasks
      \<lparr>tasks = JArr [taskObj (js ''Buy milk'', True, js ''2024-05-01T10:00:00.000Z''),
                     taskObj (js ''Call Bob'', False, js ''2024-05-01T10:05:00.000Z'')],
       draggedIndex = None, todoInput = [], localStorage = \<lparr>items = [], quota = 1000\<rparr>\<rparr>))
      \<lparr>tasks := JArr []\<rparr>)))
   = JArr [taskObj (js ''Buy milk'', True, js ''2024-05-01T10:00:00.000Z''),
           taskObj (js ''Call Bob'', False, js ''2024-05-01T10:05:00.000Z'')]"
proof -
  have f: "fits \<lparr>tasks = JArr [taskObj (js ''Buy milk'', True, js ''2024-05-01T10:00:00.000Z''),
                     taskObj (js ''Call Bob'', False, js ''2024-05-01T10:05:00.000Z'')],
       draggedIndex = None, todoInput = [], localStorage = \<lparr>items = [], quota = 1000\<rparr>\<rparr>"
    by (simp add: fits_def used_def tasksBlob_def taskObj_def js_def quoteJSONString_def
        quoteUnit_def isLeadingSurrogate_def isTrailingSurrogate_def)
  have l: "isTaskList (tasks \<lparr>tasks = JArr [taskObj (js ''Buy milk'', True, js ''2024-05-01T10:00:00.000Z''),
                     taskObj (js ''Call Bob'', False, js ''2024-05-01T10:05:00.000Z'')],
       draggedIndex = None, todoInput = [], localStorage = \<lparr>items = [], quota = 1000\<rparr>\<rparr>)"
    by (simp add: isTaskList_JArr isTask_taskObj)
  show ?thesis
    using f l save_load_roundtrip
      [of "[(js ''Buy milk'', True, js ''2024-05-01T10:00:00.000Z''),
            (js ''Call Bob'', False, js ''2024-05-01T10:05:00.000Z'')]"
          "\<lparr>tasks = JArr [taskObj (js ''Buy milk'', True, js ''2024-05-01T10:00:00.000Z''),
                     taskObj (js ''Call Bob'', False, js ''2024-05-01T10:05:00.000Z'')],
       draggedIndex = None, todoInput = [], localStorage = \<lparr>items = [], quota = 1000\<rparr>\<rparr>"
          "JArr []"]
    by (simp del: stringify.simps)
qed

text \<open>
  C6. When the input trims to the empty string, \<open>addTask\<close> returns with the state as it
  was. Otherwise the list grows by exactly one task, appended at the end: its text is the
  trimmed input, it is not completed, and its creation time is the time of the call. The
  whole list is then saved: when the storage has room, the item stored under \<open>tasks\<close> is
  what \<open>JSON.stringify\<close> gives for the new list, and a load from that storage brings the
  new list back; when it has not, the handler throws QuotaExceededError. With the input
  \<open> Buy milk \<close> on the list \<open>[A]\<close> the stored item is
  \<open>[{"text":"A","completed":false,"createdAt":"t1"},{"text":"Buy milk","completed":false,"createdAt":"now"}]\<close>.
\<close>

theorem addTask_appends:
  "(trim (todoInput st) = [] \<longrightarrow> addTask now st = (Returned, st)) \<and>
   (trim (todoInput st) \<noteq> [] \<and> tasks st = JArr xs \<longrightarrow>
      (let t = taskObj (trim (todoInput st), False, now);
           st' = st\<lparr>tasks := JArr (xs @ [t])\<rparr>;
           r = addTask now st
       in tasks (snd r) = JArr (xs @ [t])
          \<and> length (elements (tasks (snd r))) = length xs + 1
          \<and> (fits st' \<longrightarrow> persisted (snd r))
          \<and> (fits st' \<longrightarrow>
               getItem (localStorage (snd r)) (js ''tasks'') = stringify (JArr (xs @ [t])))
          \<and> (fits st' \<and> isTaskList (JArr xs) \<longrightarrow>
               tasks (snd (loadTasks ((snd r)\<lparr>tasks := JArr []\<rparr>))) = JArr (xs @ [t]))
          \<and> (\<not> fits st' \<longrightarrow> r = (Threw QuotaExceededError, st'))))"
proof (intro conjI impI)
  assume "trim (todoInput st) = []"
  then show "addTask now st = (Returned, st)" by (rule addTask_blank)
next
  assume a: "trim (todoInput st) \<noteq> [] \<and> tasks st = JArr xs"
  let ?t = "taskObj (trim (todoInput st), False, now)"
  let ?st' = "st\<lparr>tasks := JArr (xs @ [?t])\<rparr>"
  let ?r = "addTask now st"
  have r: "?r = andThen (andThen (saveTasks ?st') renderTasks)
                  (\<lambda>st'. (Returned, st'\<lparr>todoInput := []\<rparr>))"
    using a by (simp add: addTask_def Let_def newTask_taskObj)
  have t: "tasks (snd ?r) = JArr (xs @ [?t])"
    by (simp add: r snd_andThen_clear)
  have s: "localStorage (snd ?r) = localStorage (snd (saveTasks ?st'))"
    by (simp add: r snd_andThen_clear)
  have p: "fits ?st' \<longrightarrow> persisted (snd ?r)"
  proof
    assume "fits ?st'"
    then have "persisted (snd (saveTasks ?st'))" by (rule persisted_saveTasks)
    moreover have "tasks (snd ?r) = tasks (snd (saveTasks ?st'))" by (simp add: t)
    ultimately show "persisted (snd ?r)" using s by (simp add: persisted_def)
  qed
  have g: "fits ?st' \<longrightarrow>
      getItem (localStorage (snd ?r)) (js ''tasks'') = stringify (JArr (xs @ [?t]))"
    using a by (blast intro: stored_addTask)
  have l: "fits ?st' \<and> isTaskList (JArr xs) \<longrightarrow>
      tasks (snd (loadTasks ((snd ?r)\<lparr>tasks := JArr []\<rparr>))) = JArr (xs @ [?t])"
  proof
    assume b: "fits ?st' \<and> isTaskList (JArr xs)"
    then have "getItem (localStorage (snd ?r)) (js ''tasks'') = stringify (JArr (xs @ [?t]))"
      using g by blast
    moreover have "isTaskList (JArr (xs @ [?t]))"
      using b by (simp add: isTaskList_append_task)
    ultimately show "tasks (snd (loadTasks ((snd ?r)\<lparr>tasks := JArr []\<rparr>))) = JArr (xs @ [?t])"
      by (rule reload_stored)
  qed
  have f: "\<not> fits ?st' \<longrightarrow> ?r = (Threw QuotaExceededError, ?st')"
    using a by (simp add: addTask_full)
  show "let t = taskObj (trim (todoInput st), False, now);
            st' = st\<lparr>tasks := JArr (xs @ [t])\<rparr>;
            r = addTask now st
        in tasks (snd r) = JArr (xs @ [t])
           \<and> length (elements (tasks (snd r))) = length xs + 1
           \<and> (fits st' \<longrightarrow> persisted (snd r))
           \<and> (fits st' \<longrightarrow>
                getItem (localStorage (snd r)) (js ''tasks'') = stringify (JArr (xs @ [t])))
           \<and> (fits st' \<and> isTaskList (JArr xs) \<longrightarrow>
                tasks (snd (loadTasks ((snd r)\<lparr>tasks := JArr []\<rparr>))) = JArr (xs @ [t]))
           \<and> (\<not> fits st' \<longrightarrow> r = (Threw QuotaExceededError, st'))"
    using t p g l f by (simp add: Let_def elements_def del: stringify.simps)
qed

theorem addTask_appends_witness:
  "addTask (js ''now'')
      \<lparr>tasks = JArr [taskObj (js ''A'', False, js ''t1'')], draggedIndex = None,
       todoInput = js ''   '', localStorage = \<lparr>items = [], quota = 1000\<rparr>\<rparr>
   = (Returned,
      \<lparr>tasks = JArr [taskObj (js ''A'', False, js ''t1'')], draggedIndex = None,
       todoInput = js ''   '', localStorage = \<lparr>items = [], quota = 1000\<rparr>\<rparr>)
   \<and> tasks (snd (addTask (js ''now'')
      \<lparr>tasks = JArr [taskObj (js ''A'', False, js ''t1'')], draggedIndex = None,
       todoInput = js '' Buy milk '', localStorage = \<lparr>items = [], quota = 1000\<rparr>\<rparr>))
   = JArr [taskObj (js ''A'', False, js ''t1''), taskObj (js ''Buy milk'', False, js ''now'')]
   \<and> getItem (localStorage (snd (addTask (js ''now'')
      \<lparr>tasks = JArr [taskObj (js ''A'', False, js ''t1'')], draggedIndex = None,
       todoInput = js '' Buy milk '', localStorage = \<lparr>items = [], quota = 1000\<rparr>\<rparr>))) (js ''tasks'')
   = Some (js ''[{'' @ quoted ''text'' @ js '':'' @ quoted ''A'' @ js '','' @ quoted ''completed''
             @ js '':false,'' @ quoted ''createdAt'' @ js '':'' @ quoted ''t1''
           @ js ''},{'' @ quoted ''text'' @ js '':'' @ quoted ''Buy milk'' @ js '','' @ quoted ''completed''
             @ js '':false,'' @ quoted ''createdAt'' @ js '':'' @ quoted ''now'' @ js ''}]'')
   \<and> tasks (snd (loadTasks ((snd (addTask (js ''now'')
      \<lparr>tasks = JArr [taskObj (js ''A'', False, js ''t1'')], draggedIndex = None,
       todoInput = js '' Buy milk '', localStorage = \<lparr>items = [], quota = 1000\<rparr>\<rparr>))\<lparr>tasks := JArr []\<rparr>)))
   = JArr [taskObj (js ''A'', False, js ''t1''), taskObj (js ''Buy milk'', False, js ''now'')]"
proof -
  have tr: "trim (js '' Buy milk '') = js ''Buy milk''" "trim (js ''   '') = []"
    "js ''Buy milk'' \<noteq> []"
    by (simp_all add: trim_def js_def isWhiteSpace_def)
  have f: "fits \<lparr>tasks = JArr [taskObj (js ''A'', False, js ''t1''), taskObj (js ''Buy milk'', False, js ''now'')],
       draggedIndex = None, todoInput = js '' Buy milk '', localStorage = \<lparr>items = [], quota = 1000\<rparr>\<rparr>"
    by (simp add: fits_def used_def tasksBlob_def taskObj_def js_def quoteJSONString_def
        quoteUnit_def isLeadingSurrogate_def isTrailingSurrogate_def)
  have l: "isTaskList (JArr [taskObj (js ''A'', False, js ''t1'')])"
    by (simp add: isTaskList_JArr isTask_taskObj)
  have s: "stringify (JArr [taskObj (js ''A'', False, js ''t1''), taskObj (js ''Buy milk'', False, js ''now'')])
     = Some (js ''[{'' @ quoted ''text'' @ js '':'' @ quoted ''A'' @ js '','' @ quoted ''completed''
             @ js '':false,'' @ quoted ''createdAt'' @ js '':'' @ quoted ''t1''
           @ js ''},{'' @ quoted ''text'' @ js '':'' @ quoted ''Buy milk'' @ js '','' @ quoted ''completed''
             @ js '':false,'' @ quoted ''createdAt'' @ js '':'' @ quoted ''now'' @ js ''}]'')"
    by (simp add: taskObj_def js_def quoted_def quoteJSONString_def
        quoteUnit_def isLeadingSurrogate_def isTrailingSurrogate_def)
  note addTask_appends
    [of "\<lparr>tasks = JArr [taskObj (js ''A'', False, js ''t1'')], draggedIndex = None,
       todoInput = js ''   '', localStorage = \<lparr>items = [], quota = 1000\<rparr>\<rparr>"
        "js ''now''" "[]", THEN conjunct1]
    addTask_appends
    [of "\<lparr>tasks = JArr [taskObj (js ''A'', False, js ''t1'')], draggedIndex = None,
       todoInput = js '' Buy milk '', localStorage = \<lparr>items = [], quota = 1000\<rparr>\<rparr>"
        "js ''now''" "[taskObj (js ''A'', False, js ''t1'')]", THEN conjunct2, unfolded Let_def]
  with tr f l s show ?thesis
    by (simp del: stringify.simps)
qed

text \<open>
  C7. The remove button of row \<open>i\<close>: when \<open>i\<close> is an index of the list, the list loses
  exactly the task at \<open>i\<close>, so it is one shorter, the tasks before \<open>i\<close> stay where they
  were and the tasks after it move down by one. When \<open>i\<close> is beyond the end, the list is
  unchanged.
\<close>

theorem removeBtn_click_removes:
  assumes "tasks st = JArr xs"
  shows "(i < length xs \<longrightarrow>
            tasks (snd (removeBtn_click i st)) = JArr (removeAt i xs)
            \<and> length (removeAt i xs) = length xs - 1
            \<and> (\<forall>k. k < i \<longrightarrow> removeAt i xs ! k = xs ! k)
            \<and> (\<forall>k. i \<le> k \<and> Suc k < length xs \<longrightarrow> removeAt i xs ! k = xs ! Suc k))
         \<and> (length xs \<le> i \<longrightarrow> tasks (snd (removeBtn_click i st)) = JArr xs)"
  using assms
  by (simp add: removeBtn_click_eq length_removeAt removeAt_out_of_range
      nth_removeAt_before nth_removeAt_after)

theorem removeBtn_click_removes_witness:
  "tasks (snd (removeBtn_click 1
      \<lparr>tasks = JArr [taskObj (js ''A'', False, js ''t1''), taskObj (js ''B'', True, js ''t2''),
                     taskObj (js ''C'', False, js ''t3'')],
       draggedIndex = None, todoInput = [], localStorage = \<lparr>items = [], quota = 1000\<rparr>\<rparr>))
   = JArr [taskObj (js ''A'', False, js ''t1''), taskObj (js ''C'', False, js ''t3'')]
   \<and> tasks (snd (removeBtn_click 3
      \<lparr>tasks = JArr [taskObj (js ''A'', False, js ''t1''), taskObj (js ''B'', True, js ''t2''),
                     taskObj (js ''C'', False, js ''t3'')],
       draggedIndex = None, todoInput = [], localStorage = \<lparr>items = [], quota = 1000\<rparr>\<rparr>))
   = JArr [taskObj (js ''A'', False, js ''t1''), taskObj (js ''B'', True, js ''t2''),
           taskObj (js ''C'', False, js ''t3'')]"
  using removeBtn_click_removes
    [of "\<lparr>tasks = JArr [taskObj (js ''A'', False, js ''t1''), taskObj (js ''B'', True, js ''t2''),
                     taskObj (js ''C'', False, js ''t3'')],
       draggedIndex = None, todoInput = [], localStorage = \<lparr>items = [], quota = 1000\<rparr>\<rparr>"
        "[taskObj (js ''A'', False, js ''t1''), taskObj (js ''B'', True, js ''t2''),
                     taskObj (js ''C'', False, js ''t3'')]" 1]
    removeBtn_click_removes
    [of "\<lparr>tasks = JArr [taskObj (js ''A'', False, js ''t1''), taskObj (js ''B'', True, js ''t2''),
                     taskObj (js ''C'', False, js ''t3'')],
       draggedIndex = None, todoInput = [], localStorage = \<lparr>items = [], quota = 1000\<rparr>\<rparr>"
        "[taskObj (js ''A'', False, js ''t1''), taskObj (js ''B'', True, js ''t2''),
                     taskObj (js ''C'', False, js ''t3'')]" 3]
  by (simp add: removeAt_def)

text \<open>
  C8. The second click on the edit button of a row whose task is an object that stands at
  position \<open>i\<close> of the list; in a view that is in step with the list this is row \<open>i\<close>.
  When the edited text trims to the empty string, the state stays as it was, so the task
  keeps its text. Otherwise the task's text becomes the trimmed text, in place, and the
  list is saved: when the storage has room, the item stored under \<open>tasks\<close> is what
  \<open>JSON.stringify\<close> gives for the new list, and a load from that storage brings the new
  list back. In both cases the task's creation time and completion flag, the length of the
  list and every other task are unchanged. Editing \<open>Old\<close> to \<open> New \<close> stores
  \<open>[{"text":"New","completed":true,"createdAt":"t1"}]\<close>.
\<close>

theorem editBtn_click_edits_text:
  assumes "tasks st = JArr xs" and "i < length xs" and "xs ! i = JObj ps"
  shows "let r = editBtn_click (Some i) True newText st;
             x = JObj (AList.update (js ''text'') (JStr (trim newText)) ps);
             st' = st\<lparr>tasks := JArr (xs[i := x])\<rparr>
         in (trim newText = [] \<longrightarrow> snd r = st)
            \<and> (trim newText \<noteq> [] \<longrightarrow>
                 tasks (snd r) = JArr (xs[i := x])
                 \<and> getProp (elements (tasks (snd r)) ! i) (js ''text'') = JStr (trim newText)
                 \<and> (fits st' \<longrightarrow> persisted (snd r))
                 \<and> (fits st' \<longrightarrow>
                      getItem (localStorage (snd r)) (js ''tasks'') = stringify (JArr (xs[i := x])))
                 \<and> (fits st' \<and> isTaskList (JArr xs) \<longrightarrow>
                      tasks (snd (loadTasks ((snd r)\<lparr>tasks := JArr []\<rparr>))) = JArr (xs[i := x]))
                 \<and> (\<not> fits st' \<longrightarrow> r = (Threw QuotaExceededError, st')))
            \<and> getProp (elements (tasks (snd r)) ! i) (js ''createdAt'')
                = getProp (xs ! i) (js ''createdAt'')
            \<and> getProp (elements (tasks (snd r)) ! i) (js ''completed'')
                = getProp (xs ! i) (js ''completed'')
            \<and> length (elements (tasks (snd r))) = length xs
            \<and> (\<forall>k. k \<noteq> i \<longrightarrow> elements (tasks (snd r)) ! k = xs ! k)"
proof (cases "trim newText = []")
  case True
  then have "snd (editBtn_click (Some i) True newText st) = st"
    by (simp add: editBtn_click_blank)
  with True assms show ?thesis
    by (simp add: Let_def elements_def)
next
  case False
  let ?x = "JObj (AList.update (js ''text'') (JStr (trim newText)) ps)"
  let ?st' = "st\<lparr>tasks := JArr (xs[i := ?x])\<rparr>"
  let ?r = "editBtn_click (Some i) True newText st"
  have r: "?r = andThen (saveTasks ?st') renderTasks"
    using False assms by (rule editBtn_click_commit)
  have t: "tasks (snd ?r) = JArr (xs[i := ?x])"
    by (simp add: r)
  have p: "fits ?st' \<longrightarrow> persisted (snd ?r)"
    by (simp add: r persisted_saveTasks)
  have g: "fits ?st' \<longrightarrow>
      getItem (localStorage (snd ?r)) (js ''tasks'') = stringify (JArr (xs[i := ?x]))"
    unfolding r by (rule impI, erule stored_save_render) simp
  have l: "fits ?st' \<and> isTaskList (JArr xs) \<longrightarrow>
      tasks (snd (loadTasks ((snd ?r)\<lparr>tasks := JArr []\<rparr>))) = JArr (xs[i := ?x])"
  proof
    assume b: "fits ?st' \<and> isTaskList (JArr xs)"
    then have "getItem (localStorage (snd ?r)) (js ''tasks'') = stringify (JArr (xs[i := ?x]))"
      using g by blast
    moreover have "isTaskList (tasks (snd ?r))"
      using b assms(1) by (intro isTaskList_editBtn_click) simp
    then have "isTaskList (JArr (xs[i := ?x]))"
      by (simp add: t)
    ultimately show "tasks (snd (loadTasks ((snd ?r)\<lparr>tasks := JArr []\<rparr>))) = JArr (xs[i := ?x])"
      by (rule reload_stored)
  qed
  have f: "\<not> fits ?st' \<longrightarrow> ?r = (Threw QuotaExceededError, ?st')"
    by (simp add: r full_save_render)
  show ?thesis
    using False assms t p g l f
    by (simp add: Let_def elements_def getProp_update keys_distinct del: stringify.simps)
qed

theorem editBtn_click_edits_text_witness:
  "tasks (snd (editBtn_click (Some 0) True (js '' New '')
      \<lparr>tasks = JArr [taskObj (js ''Old'', True, js ''t1'')], draggedIndex = None,
       todoInput = [], localStorage = \<lparr>items = [], quota = 1000\<rparr>\<rparr>))
   = JArr [taskObj (js ''New'', True, js ''t1'')]
   \<and> getItem (localStorage (snd (editBtn_click (Some 0) True (js '' New '')
      \<lparr>tasks = JArr [taskObj (js ''Old'', True, js ''t1'')], draggedIndex = None,
       todoInput = [], localStorage = \<lparr>items = [], quota = 1000\<rparr>\<rparr>))) (js ''tasks'')
   = Some (js ''[{'' @ quoted ''text'' @ js '':'' @ quoted ''New'' @ js '','' @ quoted ''completed''
             @ js '':true,'' @ quoted ''createdAt'' @ js '':'' @ quoted ''t1'' @ js ''}]'')
   \<and> tasks (snd (loadTasks ((snd (editBtn_click (Some 0) True (js '' New '')
      \<lparr>tasks = JArr [taskObj (js ''Old'', True, js ''t1'')], draggedIndex = None,
       todoInput = [], localStorage = \<lparr>items = [], quota = 1000\<rparr>\<rparr>))\<lparr>tasks := JArr []\<rparr>)))
   = JArr [taskObj (js ''New'', True, js ''t1'')]
   \<and> tasks (snd (editBtn_click (Some 0) True (js ''  '')
      \<lparr>tasks = JArr [taskObj (js ''Old'', True, js ''t1'')], draggedIndex = None,
       todoInput = [], localStorage = \<lparr>items = [], quota = 1000\<rparr>\<rparr>))
   = JArr [taskObj (js ''Old'', True, js ''t1'')]"
proof -
  have tr: "trim (js '' New '') = js ''New''" "trim (js ''  '') = []"
    by (simp_all add: trim_def js_def isWhiteSpace_def)
  have f: "fits \<lparr>tasks = JArr [taskObj (js ''New'', True, js ''t1'')], draggedIndex = None,
       todoInput = [], localStorage = \<lparr>items = [], quota = 1000\<rparr>\<rparr>"
    by (simp add: fits_def used_def tasksBlob_def taskObj_def js_def quoteJSONString_def
        quoteUnit_def isLeadingSurrogate_def isTrailingSurrogate_def)
  have l: "isTaskList (JArr [taskObj (js ''Old'', True, js ''t1'')])"
    by (simp add: isTaskList_JArr isTask_taskObj)
  have s: "stringify (JArr [taskObj (js ''New'', True, js ''t1'')])
     = Some (js ''[{'' @ quoted ''text'' @ js '':'' @ quoted ''New'' @ js '','' @ quoted ''completed''
             @ js '':true,'' @ quoted ''createdAt'' @ js '':'' @ quoted ''t1'' @ js ''}]'')"
    by (simp add: taskObj_def js_def quoted_def quoteJSONString_def
        quoteUnit_def isLeadingSurrogate_def isTrailingSurrogate_def)
  have o: "taskObj (js ''Old'', True, js ''t1'')
     = JObj [(js ''text'', JStr (js ''Old'')), (js ''completed'', JBool True),
          (js ''createdAt'', JStr (js ''t1''))]"
    and n: "taskObj (js ''New'', True, js ''t1'')
     = JObj (AList.update (js ''text'') (JStr (js ''New''))
          [(js ''text'', JStr (js ''Old'')), (js ''completed'', JBool True),
          (js ''createdAt'', JStr (js ''t1''))])"
    by (simp_all add: taskObj_def)
  have a: "tasks \<lparr>tasks = JArr [taskObj (js ''Old'', True, js ''t1'')], draggedIndex = None,
       todoInput = [], localStorage = \<lparr>items = [], quota = 1000\<rparr>\<rparr>
       = JArr [taskObj (js ''Old'', True, js ''t1'')]"
    and "0 < length [taskObj (js ''Old'', True, js ''t1'')]"
    and "[taskObj (js ''Old'', True, js ''t1'')] ! 0
     = JObj [(js ''text'', JStr (js ''Old'')), (js ''completed'', JBool True),
          (js ''createdAt'', JStr (js ''t1''))]"
    by (simp_all add: o)
  note editBtn_click_edits_text[OF this, of "js '' New ''", unfolded Let_def tr]
    editBtn_click_edits_text[OF a this(2,3), of "js ''  ''", unfolded Let_def tr]
  with f l s show ?thesis
    by (simp add: taskObj_def js_def del: stringify.simps)
qed

text \<open>
  C9. Each handler changes the list before it calls \<open>saveTasks\<close>, and nothing catches what
  \<open>setItem\<close> throws. So when the storage has no room for the new list, each of the six
  mutating handlers throws QuotaExceededError, and the state it leaves holds the new list
  and the old storage. The checkbox and the edit button change the task that their row
  holds, here an object that stands at position \<open>i\<close> of the list, whatever the number of
  the row; the remove button and the drop go by the number of the row.
\<close>

theorem persist_failure_keeps_mutation:
  assumes "tasks st = JArr xs"
  shows
    "(trim (todoInput st) \<noteq> [] \<and>
        \<not> fits (st\<lparr>tasks := JArr (xs @ [taskObj (trim (todoInput st), False, now)])\<rparr>) \<longrightarrow>
      addTask now st =
        (Threw QuotaExceededError,
         st\<lparr>tasks := JArr (xs @ [taskObj (trim (todoInput st), False, now)])\<rparr>))
     \<and> (\<not> fits (st\<lparr>tasks := JArr (removeAt i xs)\<rparr>) \<longrightarrow>
          removeBtn_click i st = (Threw QuotaExceededError, st\<lparr>tasks := JArr (removeAt i xs)\<rparr>))
     \<and> (i < length xs \<and> xs ! i = JObj ps \<and>
          \<not> fits (st\<lparr>tasks := JArr (xs[i := JObj (AList.update (js ''completed'') (JBool b) ps)])\<rparr>) \<longrightarrow>
          checkbox_change (Some i) b st =
            (Threw QuotaExceededError,
             st\<lparr>tasks := JArr (xs[i := JObj (AList.update (js ''completed'') (JBool b) ps)])\<rparr>))
     \<and> (i < length xs \<and> xs ! i = JObj ps \<and> trim newText \<noteq> [] \<and>
          \<not> fits (st\<lparr>tasks := JArr (xs[i := JObj (AList.update (js ''text'') (JStr (trim newText)) ps)])\<rparr>) \<longrightarrow>
          editBtn_click (Some i) True newText st =
            (Threw QuotaExceededError,
             st\<lparr>tasks := JArr (xs[i := JObj (AList.update (js ''text'') (JStr (trim newText)) ps)])\<rparr>))
     \<and> (draggedIndex st = Some d \<and> d < length xs \<and> d \<noteq> j \<and>
          \<not> fits (st\<lparr>tasks := JArr (insertAt j (xs ! d) (removeAt d xs))\<rparr>) \<longrightarrow>
          handleDrop j st =
            (Threw QuotaExceededError, st\<lparr>tasks := JArr (insertAt j (xs ! d) (removeAt d xs))\<rparr>))
     \<and> (\<not> fits (st\<lparr>tasks := JArr []\<rparr>) \<longrightarrow>
          deleteAllTasks st = (Threw QuotaExceededError, st\<lparr>tasks := JArr []\<rparr>))"
proof (intro conjI impI)
  assume "trim (todoInput st) \<noteq> [] \<and>
        \<not> fits (st\<lparr>tasks := JArr (xs @ [taskObj (trim (todoInput st), False, now)])\<rparr>)"
  with assms show "addTask now st =
        (Threw QuotaExceededError,
         st\<lparr>tasks := JArr (xs @ [taskObj (trim (todoInput st), False, now)])\<rparr>)"
    by (simp add: addTask_full)
next
  assume "\<not> fits (st\<lparr>tasks := JArr (removeAt i xs)\<rparr>)"
  with assms show "removeBtn_click i st = (Threw QuotaExceededError, st\<lparr>tasks := JArr (removeAt i xs)\<rparr>)"
    by (simp add: removeBtn_click_eq full_save_render)
next
  assume "i < length xs \<and> xs ! i = JObj ps \<and>
          \<not> fits (st\<lparr>tasks := JArr (xs[i := JObj (AList.update (js ''completed'') (JBool b) ps)])\<rparr>)"
  with assms show "checkbox_change (Some i) b st =
            (Threw QuotaExceededError,
             st\<lparr>tasks := JArr (xs[i := JObj (AList.update (js ''completed'') (JBool b) ps)])\<rparr>)"
    by (simp add: checkbox_change_object full_save_render)
next
  assume "i < length xs \<and> xs ! i = JObj ps \<and> trim newText \<noteq> [] \<and>
          \<not> fits (st\<lparr>tasks := JArr (xs[i := JObj (AList.update (js ''text'') (JStr (trim newText)) ps)])\<rparr>)"
  with assms show "editBtn_click (Some i) True newText st =
            (Threw QuotaExceededError,
             st\<lparr>tasks := JArr (xs[i := JObj (AList.update (js ''text'') (JStr (trim newText)) ps)])\<rparr>)"
    by (simp add: editBtn_click_commit full_save_render)
next
  assume "draggedIndex st = Some d \<and> d < length xs \<and> d \<noteq> j \<and>
          \<not> fits (st\<lparr>tasks := JArr (insertAt j (xs ! d) (removeAt d xs))\<rparr>)"
  with assms show "handleDrop j st =
            (Threw QuotaExceededError, st\<lparr>tasks := JArr (insertAt j (xs ! d) (removeAt d xs))\<rparr>)"
    by (simp add: handleDrop_moves full_save_render)
next
  assume "\<not> fits (st\<lparr>tasks := JArr []\<rparr>)"
  then show "deleteAllTasks st = (Threw QuotaExceededError, st\<lparr>tasks := JArr []\<rparr>)"
    by (simp add: deleteAllTasks_def full_save_render)
qed

theorem persist_failure_keeps_mutation_witness:
  "addTask (js ''now'')
      \<lparr>tasks = JArr [taskObj (js ''A'', False, js ''t1''), taskObj (js ''B'', True, js ''t2'')],
       draggedIndex = Some 0, todoInput = js ''C'', localStorage = \<lparr>items = [], quota = 0\<rparr>\<rparr>
   = (Threw QuotaExceededError,
      \<lparr>tasks = JArr [taskObj (js ''A'', False, js ''t1''), taskObj (js ''B'', True, js ''t2''),
                     taskObj (js ''C'', False, js ''now'')],
       draggedIndex = Some 0, todoInput = js ''C'', localStorage = \<lparr>items = [], quota = 0\<rparr>\<rparr>)
   \<and> removeBtn_click 0
      \<lparr>tasks = JArr [taskObj (js ''A'', False, js ''t1''), taskObj (js ''B'', True, js ''t2'')],
       draggedIndex = Some 0, todoInput = js ''C'', localStorage = \<lparr>items = [], quota = 0\<rparr>\<rparr>
   = (Threw QuotaExceededError,
      \<lparr>tasks = JArr [taskObj (js ''B'', True, js ''t2'')],
       draggedIndex = Some 0, todoInput = js ''C'', localStorage = \<lparr>items = [], quota = 0\<rparr>\<rparr>)
   \<and> checkbox_change (Some 0) True
      \<lparr>tasks = JArr [taskObj (js ''A'', False, js ''t1''), taskObj (js ''B'', True, js ''t2'')],
       draggedIndex = Some 0, todoInput = js ''C'', localStorage = \<lparr>items = [], quota = 0\<rparr>\<rparr>
   = (Threw QuotaExceededError,
      \<lparr>tasks = JArr [taskObj (js ''A'', True, js ''t1''), taskObj (js ''B'', True, js ''t2'')],
       draggedIndex = Some 0, todoInput = js ''C'', localStorage = \<lparr>items = [], quota = 0\<rparr>\<rparr>)
   \<and> editBtn_click (Some 0) True (js '' D '')
      \<lparr>tasks = JArr [taskObj (js ''A'', False, js ''t1''), taskObj (js ''B'', True, js ''t2'')],
       draggedIndex = Some 0, todoInput = js ''C'', localStorage = \<lparr>items = [], quota = 0\<rparr>\<rparr>
   = (Threw QuotaExceededError,
      \<lparr>tasks = JArr [taskObj (js ''D'', False, js ''t1''), taskObj (js ''B'', True, js ''t2'')],
       draggedIndex = Some 0, todoInput = js ''C'', localStorage = \<lparr>items = [], quota = 0\<rparr>\<rparr>)
   \<and> handleDrop 1
      \<lparr>tasks = JArr [taskObj (js ''A'', False, js ''t1''), taskObj (js ''B'', True, js ''t2'')],
       draggedIndex = Some 0, todoInput = js ''C'', localStorage = \<lparr>items = [], quota = 0\<rparr>\<rparr>
   = (Threw QuotaExceededError,
      \<lparr>tasks = JArr [taskObj (js ''B'', True, js ''t2''), taskObj (js ''A'', False, js ''t1'')],
       draggedIndex = Some 0, todoInput = js ''C'', localStorage = \<lparr>items = [], quota = 0\<rparr>\<rparr>)
   \<and> deleteAllTasks
      \<lparr>tasks = JArr [taskObj (js ''A'', False, js ''t1''), taskObj (js ''B'', True, js ''t2'')],
       draggedIndex = Some 0, todoInput = js ''C'', localStorage = \<lparr>items = [], quota = 0\<rparr>\<rparr>
   = (Threw QuotaExceededError,
      \<lparr>tasks = JArr [], draggedIndex = Some 0, todoInput = js ''C'',
       localStorage = \<lparr>items = [], quota = 0\<rparr>\<rparr>)"
  using persist_failure_keeps_mutation
    [of "\<lparr>tasks = JArr [taskObj (js ''A'', False, js ''t1''), taskObj (js ''B'', True, js ''t2'')],
       draggedIndex = Some 0, todoInput = js ''C'', localStorage = \<lparr>items = [], quota = 0\<rparr>\<rparr>"
        "[taskObj (js ''A'', False, js ''t1''), taskObj (js ''B'', True, js ''t2'')]" "js ''now''" 0
        "[(js ''text'', JStr (js ''A'')), (js ''completed'', JBool False),
          (js ''createdAt'', JStr (js ''t1''))]" True "js '' D ''" 0 1]
  by (simp add: fits_no_room removeAt_def insertAt_def taskObj_def trim_def js_def isWhiteSpace_def)

text \<open>
  C10. The checkbox of a row whose task is an object that stands at position \<open>i\<close> of the
  list (row \<open>i\<close> in a view that is in step with the list) sets the completion flag of that
  task to the value given. Checking and then unchecking leaves the flag false, and a task
  that was not completed before is then the task it was. Repeating a change with the same
  value changes nothing, wherever the row's task stands and also when it has left the list:
  the outcome and the whole state after the second change are those after the first, and
  so after any number of repetitions.
\<close>

theorem checkbox_change_toggles:
  "(tasks st = JArr xs \<and> i < length xs \<and> xs ! i = JObj ps \<longrightarrow>
      getProp (elements (tasks (snd (checkbox_change (Some i) v st))) ! i) (js ''completed'') = JBool v
      \<and> getProp (elements (tasks (snd (checkbox_change (Some i) False (snd (checkbox_change (Some i) True st))))) ! i)
           (js ''completed'') = JBool False
      \<and> (getProp (xs ! i) (js ''completed'') = JBool False \<longrightarrow>
           tasks (snd (checkbox_change (Some i) False (snd (checkbox_change (Some i) True st)))) = JArr xs))
   \<and> checkbox_change c v (snd (checkbox_change c v st)) = checkbox_change c v st
   \<and> (0 < n \<longrightarrow> ((\<lambda>s. snd (checkbox_change c v s)) ^^ n) st = snd (checkbox_change c v st))"
proof (intro conjI impI)
  assume a: "tasks st = JArr xs \<and> i < length xs \<and> xs ! i = JObj ps"
  let ?c = "js ''completed''"
  have one: "tasks (snd (checkbox_change (Some i) b st)) = JArr (xs[i := JObj (AList.update ?c (JBool b) ps)])" for b
    using a by (simp add: checkbox_change_object)
  show "getProp (elements (tasks (snd (checkbox_change (Some i) v st))) ! i) ?c = JBool v"
    using a by (simp add: one elements_def getProp_update)
  let ?st1 = "snd (checkbox_change (Some i) True st)"
  let ?xs1 = "xs[i := JObj (AList.update ?c (JBool True) ps)]"
  have two: "tasks (snd (checkbox_change (Some i) False ?st1)) = JArr (xs[i := JObj (AList.update ?c (JBool False) ps)])"
    using a checkbox_change_object[of ?st1 ?xs1 i "AList.update ?c (JBool True) ps" False]
    by (simp add: one)
  show "getProp (elements (tasks (snd (checkbox_change (Some i) False ?st1))) ! i) ?c = JBool False"
    using a by (simp add: two elements_def getProp_update)
  assume "getProp (xs ! i) ?c = JBool False"
  with a have "map_of ps ?c = Some (JBool False)"
    by (auto simp: getProp_def split: option.splits)
  then have "AList.update ?c (JBool False) ps = ps"
    by (rule update_triv)
  with a show "tasks (snd (checkbox_change (Some i) False ?st1)) = JArr xs"
    by (simp add: two) (metis list_update_id)
next
  show "checkbox_change c v (snd (checkbox_change c v st)) = checkbox_change c v st"
    by (rule checkbox_change_again)
next
  assume "0 < n"
  then show "((\<lambda>s. snd (checkbox_change c v s)) ^^ n) st = snd (checkbox_change c v st)"
    by (rule checkbox_change_repeat)
qed

theorem checkbox_change_toggles_witness:
  "tasks (snd (checkbox_change (Some 0) False (snd (checkbox_change (Some 0) True
      \<lparr>tasks = JArr [taskObj (js ''A'', False, js ''t1'')], draggedIndex = None,
       todoInput = [], localStorage = \<lparr>items = [], quota = 1000\<rparr>\<rparr>))))
   = JArr [taskObj (js ''A'', False, js ''t1'')]
   \<and> ((\<lambda>s. snd (checkbox_change (Some 0) True s)) ^^ 3)
      \<lparr>tasks = JArr [taskObj (js ''A'', False, js ''t1'')], draggedIndex = None,
       todoInput = [], localStorage = \<lparr>items = [], quota = 1000\<rparr>\<rparr>
   = snd (checkbox_change (Some 0) True
      \<lparr>tasks = JArr [taskObj (js ''A'', False, js ''t1'')], draggedIndex = None,
       todoInput = [], localStorage = \<lparr>items = [], quota = 1000\<rparr>\<rparr>)"
  using checkbox_change_toggles
    [of "\<lparr>tasks = JArr [taskObj (js ''A'', False, js ''t1'')], draggedIndex = None,
       todoInput = [], localStorage = \<lparr>items = [], quota = 1000\<rparr>\<rparr>"
        "[taskObj (js ''A'', False, js ''t1'')]" 0
        "[(js ''text'', JStr (js ''A'')), (js ''completed'', JBool False),
          (js ''createdAt'', JStr (js ''t1''))]" True "Some 0" 3]
  by (simp add: taskObj_def getProp_def keys_distinct)

end
